theory Spec2Isabelle
  imports Complex_Main "HOL-Library.Multiset" "HOL-Library.Sublist"
begin

section \<open>Module constants\<close>

text \<open>
  The aggressive fetcher (\<^verbatim>\<open>src/unnamed/part_000\<close>) fixes its configuration in module
  constants. The older script \<^verbatim>\<open>fetch-steam-charts.js\<close> has a constant of the same name
  for its window size and a default of three attempts per request.
\<close>

definition MIN_GAMES_REQUIRED :: nat where
  "MIN_GAMES_REQUIRED = 10000"

definition TARGET_GAMES :: nat where
  "TARGET_GAMES = 50000"

definition MAX_CONCURRENT_REQUESTS :: nat where
  "MAX_CONCURRENT_REQUESTS = 500"

definition MAX_RETRIES :: nat where
  "MAX_RETRIES = 5"

definition charts_MAX_CONCURRENT_REQUESTS :: nat where
  "charts_MAX_CONCURRENT_REQUESTS = 10"

definition charts_default_retries :: nat where
  "charts_default_retries = 3"

section \<open>Trend classification\<close>

text \<open>
  \<^verbatim>\<open>calculateTrending(current, peak24h)\<close>, identical in \<^verbatim>\<open>part_000\<close> and
  \<^verbatim>\<open>fetch-steam-charts.js\<close>. Player counts are integers; a missing peak is \<open>None\<close>,
  and \<^verbatim>\<open>!peak24h\<close> holds for a missing peak and for \<open>0\<close>. The quotient is taken
  in the rationals, so the comparison with \<open>0.9\<close> is the exact one.
\<close>

datatype trend = Stable | Down

definition js_falsy_num :: "int option \<Rightarrow> bool" where
  "js_falsy_num v = (case v of None \<Rightarrow> True | Some n \<Rightarrow> n = 0)"

definition ratio :: "int \<Rightarrow> int \<Rightarrow> rat" where
  "ratio current peak = of_int current / of_int peak"

definition calculateTrending :: "int \<Rightarrow> int option \<Rightarrow> trend" where
  "calculateTrending current peak24h =
     (if js_falsy_num peak24h \<or> peak24h = Some current then Stable
      else if ratio current (the peak24h) > 9 / 10 then Stable
      else if ratio current (the peak24h) > 7 / 10 then Down
      else Down)"

text \<open>The two-way classifier of the specification, without the \<open>0.7\<close> branch.\<close>

definition classify_two_way :: "int \<Rightarrow> int option \<Rightarrow> trend" where
  "classify_two_way current peak =
     (case peak of
        None \<Rightarrow> Stable
      | Some p \<Rightarrow>
          if p = 0 \<or> p = current then Stable
          else if ratio current p > 9 / 10 then Stable
          else Down)"

section \<open>Remote calls and the retry loop\<close>

text \<open>
  The HTTP transport is opaque. One call of \<^verbatim>\<open>fetch(url)\<close> either rejects (network
  error, timeout), resolves with \<^verbatim>\<open>response.ok\<close> false, resolves with a body that
  \<^verbatim>\<open>response.json()\<close> cannot parse, or resolves with a parsed body. The behaviour of
  a remote endpoint is a function from the attempt index to such an answer.
\<close>

datatype 'a response = Rejected | NotOk nat | BadBody | OkJson 'a

datatype fetch_error = NetworkFailure | HttpStatus nat | InvalidJson

text \<open>The body of the \<^verbatim>\<open>try\<close> block: \<open>Inl\<close> is the exception it throws.\<close>

fun try_fetch :: "'a response \<Rightarrow> fetch_error + 'a" where
  "try_fetch Rejected = Inl NetworkFailure"
| "try_fetch (NotOk code) = Inl (HttpStatus code)"
| "try_fetch BadBody = Inl InvalidJson"
| "try_fetch (OkJson body) = Inr body"

text \<open>
  What a run of the fetcher leaves behind: the counter \<^verbatim>\<open>this.failedRequests\<close> and,
  as a ghost log, the requests dispatched and the delays slept, in program order.
\<close>

datatype event = Attempt nat | Sleep nat

record fetcher =
  failedRequests :: nat
  events :: "event list"

text \<open>
  \<^verbatim>\<open>makeRequest(url, retries)\<close> of \<^verbatim>\<open>part_000\<close>: the loop
  \<^verbatim>\<open>for (let i = 0; i < retries; i++)\<close> from index \<open>i\<close> on. Every caught failure
  increments the counter; the last one returns \<^verbatim>\<open>null\<close>; a failure at \<open>i > 0\<close>
  sleeps \<open>100 * i\<close> ms before the next round. \<open>None\<close> stands for \<^verbatim>\<open>null\<close> and for
  the \<^verbatim>\<open>undefined\<close> of a loop that never ran; the callers do not tell them apart.
\<close>

function makeRequest_from ::
  "(nat \<Rightarrow> 'a response) \<Rightarrow> nat \<Rightarrow> nat \<Rightarrow> fetcher \<Rightarrow> 'a option \<times> fetcher" where
  "makeRequest_from net retries i st =
     (if i < retries then
        (let st1 = st\<lparr>events := events st @ [Attempt i]\<rparr> in
         case try_fetch (net i) of
           Inr body \<Rightarrow> (Some body, st1)
         | Inl err \<Rightarrow>
             (let st2 = st1\<lparr>failedRequests := failedRequests st1 + 1\<rparr> in
              if i = retries - 1 then (None, st2)
              else makeRequest_from net retries (i + 1)
                     (if 0 < i then st2\<lparr>events := events st2 @ [Sleep (100 * i)]\<rparr>
                      else st2)))
      else (None, st))"
  by pat_completeness auto
termination
  by (relation "measure (\<lambda>(net, retries, i, st). retries - i)") auto

declare makeRequest_from.simps [simp del]

definition makeRequest :: "(nat \<Rightarrow> 'a response) \<Rightarrow> nat \<Rightarrow> fetcher \<Rightarrow> 'a option \<times> fetcher" where
  "makeRequest net retries st = makeRequest_from net retries 0 st"

text \<open>
  \<^verbatim>\<open>fetchWithRetry\<close> wraps \<^verbatim>\<open>makeRequest(url)\<close> (default \<^verbatim>\<open>MAX_RETRIES\<close>) in a
  \<^verbatim>\<open>try\<close> whose handler returns \<^verbatim>\<open>null\<close>; \<^verbatim>\<open>makeRequest\<close> has no throwing path.
\<close>

definition fetchWithRetry :: "(nat \<Rightarrow> 'a response) \<Rightarrow> fetcher \<Rightarrow> 'a option \<times> fetcher" where
  "fetchWithRetry net st = makeRequest net MAX_RETRIES st"

text \<open>
  \<^verbatim>\<open>makeRequest(url, retries = 3)\<close> of \<^verbatim>\<open>fetch-steam-charts.js\<close>: no counter, the
  last failure is rethrown, and every other failure sleeps \<open>1000 * (i + 1)\<close> ms.
\<close>

function charts_makeRequest_from ::
  "(nat \<Rightarrow> 'a response) \<Rightarrow> nat \<Rightarrow> nat \<Rightarrow> event list \<Rightarrow> (fetch_error + 'a option) \<times> event list" where
  "charts_makeRequest_from net retries i evs =
     (if i < retries then
        (let evs1 = evs @ [Attempt i] in
         case try_fetch (net i) of
           Inr body \<Rightarrow> (Inr (Some body), evs1)
         | Inl err \<Rightarrow>
             if i = retries - 1 then (Inl err, evs1)
             else charts_makeRequest_from net retries (i + 1) (evs1 @ [Sleep (1000 * (i + 1))]))
      else (Inr None, evs))"
  by pat_completeness auto
termination
  by (relation "measure (\<lambda>(net, retries, i, evs). retries - i)") auto

declare charts_makeRequest_from.simps [simp del]

definition charts_makeRequest ::
  "(nat \<Rightarrow> 'a response) \<Rightarrow> nat \<Rightarrow> (fetch_error + 'a option) \<times> event list" where
  "charts_makeRequest net retries = charts_makeRequest_from net retries 0 []"

text \<open>
  The failures in front of the first success among the first \<open>retries\<close> answers, and
  the number of requests a retry loop sends: one more, and never more than \<open>retries\<close>.
\<close>

definition is_failure :: "'a response \<Rightarrow> bool" where
  "is_failure r = (case r of OkJson body \<Rightarrow> False | _ \<Rightarrow> True)"

definition failed_attempts :: "(nat \<Rightarrow> 'a response) \<Rightarrow> nat \<Rightarrow> nat" where
  "failed_attempts net retries = length (takeWhile is_failure (map net [0..<retries]))"

definition attempts_made :: "(nat \<Rightarrow> 'a response) \<Rightarrow> nat \<Rightarrow> nat" where
  "attempts_made net retries = min retries (Suc (failed_attempts net retries))"

text \<open>The delays of a log, in order.\<close>

fun delays :: "event list \<Rightarrow> nat list" where
  "delays [] = []"
| "delays (Sleep d # es) = d # delays es"
| "delays (Attempt i # es) = delays es"

text \<open>
  The log of \<open>n\<close> attempts in which attempt \<open>j\<close> waits \<open>delay j\<close> first, and the
  two delay rules: \<^verbatim>\<open>part_000\<close> sends the first retry at once and waits \<open>100\<close> ms
  times the index of the failed attempt from then on; \<^verbatim>\<open>fetch-steam-charts.js\<close>
  waits \<open>1000\<close> ms times the number of the retry before every retry.
\<close>

definition backoff_log :: "(nat \<Rightarrow> nat option) \<Rightarrow> nat \<Rightarrow> event list" where
  "backoff_log delay n =
     concat (map (\<lambda>j. (case delay j of None \<Rightarrow> [] | Some d \<Rightarrow> [Sleep d]) @ [Attempt j]) [0..<n])"

definition aggressive_delay :: "nat \<Rightarrow> nat option" where
  "aggressive_delay j = (if 2 \<le> j then Some (100 * (j - 1)) else None)"

definition charts_delay :: "nat \<Rightarrow> nat option" where
  "charts_delay j = (if 0 < j then Some (1000 * j) else None)"

section \<open>The concurrent fetcher\<close>

text \<open>
  The answer of \<^verbatim>\<open>GetNumberOfCurrentPlayers\<close>: the parsed body may lack
  \<^verbatim>\<open>response\<close>, and the response may lack \<^verbatim>\<open>result\<close> or \<^verbatim>\<open>player_count\<close>.
\<close>

record pc_response =
  pc_result :: "int option"
  pc_player_count :: "int option"

type_synonym pc_json = "pc_response option"

text \<open>
  \<^verbatim>\<open>data?.response?.result === 1 ? (data.response.player_count || 0) : 0\<close>
\<close>

definition players_of :: "pc_json option \<Rightarrow> int" where
  "players_of data =
     (case data of
        Some (Some r) \<Rightarrow>
          if pc_result r = Some 1
          then (case pc_player_count r of Some n \<Rightarrow> n | None \<Rightarrow> 0)
          else 0
      | _ \<Rightarrow> 0)"

record fetch_outcome =
  fo_appId :: int
  players :: int

text \<open>
  One element of \<^verbatim>\<open>appIds.map(appId => this.fetchWithRetry(...).then(...))\<close>. The
  remote side is a function from the identifier and the attempt index to an answer.
\<close>

definition fetch_one :: "(int \<Rightarrow> nat \<Rightarrow> pc_json response) \<Rightarrow> int \<Rightarrow> fetcher \<Rightarrow> fetch_outcome \<times> fetcher" where
  "fetch_one net appId st =
     (let (data, st') = fetchWithRetry (net appId) st
      in (\<lparr>fo_appId = appId, players = players_of data\<rparr>, st'))"

fun fetch_each :: "(int \<Rightarrow> nat \<Rightarrow> pc_json response) \<Rightarrow> int list \<Rightarrow> fetcher \<Rightarrow> fetch_outcome list \<times> fetcher" where
  "fetch_each net [] st = ([], st)"
| "fetch_each net (a # as) st =
     (let (r, st1) = fetch_one net a st;
          (rs, st2) = fetch_each net as st1
      in (r # rs, st2))"

text \<open>
  \<^verbatim>\<open>for (let i = 0; i < xs.length; i += K) xs.slice(i, i + K)\<close>. Both scripts use a
  positive module constant for \<open>K\<close>; with \<open>K = 0\<close> the source loop would not end, and
  the function below is never used there.
\<close>

function chunks_from :: "nat \<Rightarrow> nat \<Rightarrow> 'a list \<Rightarrow> 'a list list" where
  "chunks_from K i xs =
     (if 0 < K \<and> i < length xs then take K (drop i xs) # chunks_from K (i + K) xs else [])"
  by pat_completeness auto
termination
  by (relation "measure (\<lambda>(K, i, xs). length xs - i)") auto

declare chunks_from.simps [simp del]

text \<open>
  \<^verbatim>\<open>fetchPlayerCountsParallel\<close>: the promises are created first, then awaited window by
  window, and each window's results are pushed in order. The counter is a sum over the
  lookups, so the order in which concurrent lookups interleave does not change it; the
  model runs them in list order.
\<close>

definition fetchPlayerCountsParallel ::
  "(int \<Rightarrow> nat \<Rightarrow> pc_json response) \<Rightarrow> int list \<Rightarrow> fetcher \<Rightarrow> fetch_outcome list \<times> fetcher" where
  "fetchPlayerCountsParallel net appIds st =
     (let (promises, st') = fetch_each net appIds st
      in (concat (chunks_from MAX_CONCURRENT_REQUESTS 0 promises), st'))"

text \<open>An endpoint that never answers, and the fetcher as the constructor leaves it.\<close>

definition unreachable :: "int \<Rightarrow> nat \<Rightarrow> pc_json response" where
  "unreachable appId i = Rejected"

definition fresh_fetcher :: fetcher where
  "fresh_fetcher = \<lparr>failedRequests = 0, events = []\<rparr>"

subsection \<open>Dispatch schedules\<close>

text \<open>
  What the scheduler sees of a fetcher: a lookup is dispatched when its async function is
  called (the call runs synchronously up to the \<^verbatim>\<open>fetch\<close>), and
  \<^verbatim>\<open>await Promise.all(batch)\<close> returns once every lookup of the batch has settled.
  \<^verbatim>\<open>part_000\<close> maps over all identifiers before its first \<^verbatim>\<open>await\<close>;
  \<^verbatim>\<open>fetch-steam-charts.js\<close> maps over one batch at a time inside the loop.
\<close>

datatype sched = Dispatch int | AwaitAll "int list"

definition fetchPlayerCountsParallel_schedule :: "int list \<Rightarrow> sched list" where
  "fetchPlayerCountsParallel_schedule appIds =
     map Dispatch appIds @ map AwaitAll (chunks_from MAX_CONCURRENT_REQUESTS 0 appIds)"

definition processGamesInBatches_schedule :: "int list \<Rightarrow> sched list" where
  "processGamesInBatches_schedule appIds =
     concat (map (\<lambda>batch. map Dispatch batch @ [AwaitAll batch])
               (chunks_from charts_MAX_CONCURRENT_REQUESTS 0 appIds))"

text \<open>
  The largest number of lookups in flight while a schedule runs, starting with the
  lookups \<open>inflight\<close>. A lookup counts from its dispatch to the end of the await on its
  batch; no callback runs between two dispatches of one synchronous \<^verbatim>\<open>map\<close>, so
  after a run of dispatches all of them are still pending.
\<close>

fun peak_outstanding :: "sched list \<Rightarrow> int list \<Rightarrow> nat" where
  "peak_outstanding [] inflight = length inflight"
| "peak_outstanding (Dispatch a # es) inflight =
     max (length inflight) (peak_outstanding es (a # inflight))"
| "peak_outstanding (AwaitAll batch # es) inflight =
     max (length inflight) (peak_outstanding es (filter (\<lambda>x. x \<notin> set batch) inflight))"

section \<open>The session cache of the sync script\<close>

text \<open>
  \<^verbatim>\<open>fetchSingleGamePlayerCount\<close> of \<^verbatim>\<open>src/unnamed/part_001\<close>. One call of
  \<^verbatim>\<open>axios.get\<close> throws (network error, timeout, status 500 and above), or returns a
  body for which \<^verbatim>\<open>response.data && response.data.response\<close> is falsy, or returns a
  response whose \<^verbatim>\<open>player_count\<close> may be missing.
\<close>

datatype axios_result = AxiosThrows | AxiosNoResponse | AxiosResponse "int option"

record player_stats =
  ps_currentPlayers :: int
  ps_peak24h :: int
  ps_peakAllTime :: int
  ps_lastUpdated :: "string option"

text \<open>
  \<^verbatim>\<open>this.stats\<close> and \<^verbatim>\<open>this.playerCache\<close>, with a ghost log of the identifiers for
  which \<^verbatim>\<open>axios.get\<close> was called.
\<close>

record sync =
  sy_errors :: nat
  sy_apiCalls :: nat
  sy_cachedGames :: nat
  playerCache :: "int \<rightharpoonup> player_stats"
  remote_calls :: "int list"

definition zero_stats :: player_stats where
  "zero_stats = \<lparr>ps_currentPlayers = 0, ps_peak24h = 0, ps_peakAllTime = 0, ps_lastUpdated = None\<rparr>"

text \<open>
  \<open>now\<close> is the clock reading used for \<^verbatim>\<open>lastUpdated\<close>, \<open>remote\<close> the answer the
  endpoint gives if it is asked. \<^verbatim>\<open>Math.floor(playerCount * 1.2)\<close> is written with
  exact integer division.
\<close>

definition fetchSingleGamePlayerCount ::
  "string \<Rightarrow> axios_result \<Rightarrow> int \<Rightarrow> sync \<Rightarrow> player_stats \<times> sync" where
  "fetchSingleGamePlayerCount now remote appId st =
     (case playerCache st appId of
        Some cached \<Rightarrow> (cached, st\<lparr>sy_cachedGames := sy_cachedGames st + 1\<rparr>)
      | None \<Rightarrow>
          (let st1 = st\<lparr>remote_calls := remote_calls st @ [appId]\<rparr> in
           case remote of
             AxiosThrows \<Rightarrow> (zero_stats, st1\<lparr>sy_errors := sy_errors st1 + 1\<rparr>)
           | AxiosNoResponse \<Rightarrow> (zero_stats, st1\<lparr>sy_apiCalls := sy_apiCalls st1 + 1\<rparr>)
           | AxiosResponse pc \<Rightarrow>
               (let playerCount = (case pc of Some n \<Rightarrow> n | None \<Rightarrow> 0);
                    res = \<lparr>ps_currentPlayers = playerCount,
                           ps_peak24h = (playerCount * 6) div 5,
                           ps_peakAllTime = playerCount * 2,
                           ps_lastUpdated = Some now\<rparr>
                in (res, st1\<lparr>sy_apiCalls := sy_apiCalls st1 + 1,
                              playerCache := (playerCache st1)(appId \<mapsto> res)\<rparr>))))"

text \<open>A run of lookups, one after the other: clock reading, remote answer, identifier.\<close>

fun lookups :: "(string \<times> axios_result \<times> int) list \<Rightarrow> sync \<Rightarrow> sync" where
  "lookups [] st = st"
| "lookups ((now, remote, appId) # rest) st =
     lookups rest (snd (fetchSingleGamePlayerCount now remote appId st))"

text \<open>
  The state the constructor leaves, and the state after one successful lookup of the
  identifier \<open>730\<close> with five players at clock reading \<open>t0\<close>.
\<close>

definition fresh_sync :: sync where
  "fresh_sync = \<lparr>sy_errors = 0, sy_apiCalls = 0, sy_cachedGames = 0,
                  playerCache = Map.empty, remote_calls = []\<rparr>"

definition cached_entry :: player_stats where
  "cached_entry = \<lparr>ps_currentPlayers = 5, ps_peak24h = 6, ps_peakAllTime = 10,
                    ps_lastUpdated = Some ''t0''\<rparr>"

definition cached_sync :: sync where
  "cached_sync = snd (fetchSingleGamePlayerCount ''t0'' (AxiosResponse (Some 5)) 730 fresh_sync)"

text \<open>The identifiers \<open>0, ..., n - 1\<close>.\<close>

definition many_ids :: "nat \<Rightarrow> int list" where
  "many_ids n = map int [0..<n]"

section \<open>Candidates and the merge\<close>

text \<open>
  A field that holds a string or a number, such as \<^verbatim>\<open>owners\<close> (SteamSpy sends a range
  as text, the scripts default to \<open>0\<close>).
\<close>

datatype jsval = Num int | Str string

definition js_truthy :: "jsval option \<Rightarrow> bool" where
  "js_truthy v = (case v of None \<Rightarrow> False | Some (Num n) \<Rightarrow> n \<noteq> 0 | Some (Str s) \<Rightarrow> s \<noteq> [])"

definition js_truthy_str :: "string option \<Rightarrow> bool" where
  "js_truthy_str s = (case s of None \<Rightarrow> False | Some t \<Rightarrow> t \<noteq> [])"

text \<open>
  The objects the three adapters of \<^verbatim>\<open>part_000\<close> build:
  \<^verbatim>\<open>fetchMostPlayedGames\<close> (\<^verbatim>\<open>currentPlayers: game.concurrent || 0\<close>,
  \<^verbatim>\<open>peak24h: game.peak_in_game || 0\<close>, no name and no owners),
  \<^verbatim>\<open>fetchSteamSpyGames\<close> and the entries of \<^verbatim>\<open>fetchAllSteamApps\<close>.
\<close>

record chart_game =
  cg_appId :: int
  cg_rank :: "int option"
  cg_currentPlayers :: int
  cg_peak24h :: int

record spy_game =
  sg_appId :: int
  sg_name :: string
  sg_currentPlayers :: int
  sg_owners :: jsval
  sg_averagePlaytime :: jsval

record steam_app =
  app_appid :: int
  app_name :: string

text \<open>A value of \<^verbatim>\<open>allGamesMap\<close>; a property an object lacks is \<open>None\<close>.\<close>

record game =
  appId :: int
  name :: "string option"
  rank :: "int option"
  currentPlayers :: "int option"
  peak24h :: "int option"
  owners :: "jsval option"
  averagePlaytime :: "jsval option"
  priority :: int
  source :: string

text \<open>
  A JavaScript \<^verbatim>\<open>Map\<close> keeps its keys in insertion order, and \<^verbatim>\<open>set\<close> on a key
  that is present replaces the value in place.
\<close>

type_synonym games_map = "(int \<times> game) list"

fun map_set :: "int \<Rightarrow> 'a \<Rightarrow> (int \<times> 'a) list \<Rightarrow> (int \<times> 'a) list" where
  "map_set k v [] = [(k, v)]"
| "map_set k v ((k', v') # m) = (if k' = k then (k, v) # m else (k', v') # map_set k v m)"

text \<open>
  Priority 1: \<^verbatim>\<open>allGamesMap.set(game.appId, { ...game, priority: 1, source: 'steam-charts' })\<close>
\<close>

definition set_chart :: "chart_game \<Rightarrow> games_map \<Rightarrow> games_map" where
  "set_chart g m =
     map_set (cg_appId g)
       \<lparr>appId = cg_appId g, name = None, rank = cg_rank g,
        currentPlayers = Some (cg_currentPlayers g), peak24h = Some (cg_peak24h g),
        owners = None, averagePlaytime = None, priority = 1, source = ''steam-charts''\<rparr> m"

text \<open>
  Priority 2: an identifier that is present gets
  \<^verbatim>\<open>existing.name = existing.name || game.name; existing.owners = game.owners\<close>,
  a new one is stored with priority 2.
\<close>

definition merge_spy :: "spy_game \<Rightarrow> games_map \<Rightarrow> games_map" where
  "merge_spy g m =
     (case map_of m (sg_appId g) of
        Some existing \<Rightarrow>
          map_set (sg_appId g)
            (existing\<lparr>name := (if js_truthy_str (name existing) then name existing
                                else Some (sg_name g)),
                      owners := Some (sg_owners g)\<rparr>) m
      | None \<Rightarrow>
          map_set (sg_appId g)
            \<lparr>appId = sg_appId g, name = Some (sg_name g), rank = None,
             currentPlayers = Some (sg_currentPlayers g), peak24h = None,
             owners = Some (sg_owners g), averagePlaytime = Some (sg_averagePlaytime g),
             priority = 2, source = ''steamspy''\<rparr> m)"

text \<open>Priority 3: only an identifier that is not present is stored.\<close>

definition add_app :: "steam_app \<Rightarrow> games_map \<Rightarrow> games_map" where
  "add_app a m =
     (case map_of m (app_appid a) of
        Some existing \<Rightarrow> m
      | None \<Rightarrow>
          map_set (app_appid a)
            \<lparr>appId = app_appid a, name = Some (app_name a), rank = None,
             currentPlayers = Some 0, peak24h = None, owners = None,
             averagePlaytime = None, priority = 3, source = ''steam-all-apps''\<rparr> m)"

text \<open>The two lower-priority passes over a map, and the whole of phase 2.\<close>

definition merge_lower :: "games_map \<Rightarrow> spy_game list \<Rightarrow> steam_app list \<Rightarrow> games_map" where
  "merge_lower m steamSpyGames allSteamApps = fold add_app allSteamApps (fold merge_spy steamSpyGames m)"

definition allGamesMap :: "chart_game list \<Rightarrow> spy_game list \<Rightarrow> steam_app list \<Rightarrow> games_map" where
  "allGamesMap steamChartsGames steamSpyGames allSteamApps =
     merge_lower (fold set_chart steamChartsGames []) steamSpyGames allSteamApps"

definition allUniqueGames :: "chart_game list \<Rightarrow> spy_game list \<Rightarrow> steam_app list \<Rightarrow> game list" where
  "allUniqueGames steamChartsGames steamSpyGames allSteamApps =
     map snd (allGamesMap steamChartsGames steamSpyGames allSteamApps)"

text \<open>
  The three sources of the specification's first scenario: source A has identifier
  \<open>10\<close> with \<open>500\<close> players, source B has \<open>10\<close> named Foo and \<open>20\<close> named Bar with
  \<open>5\<close> players, source C has \<open>30\<close> named Baz.
\<close>

definition scenario_charts :: "chart_game list" where
  "scenario_charts = [\<lparr>cg_appId = 10, cg_rank = Some 1, cg_currentPlayers = 500, cg_peak24h = 0\<rparr>]"

definition scenario_spy :: "spy_game list" where
  "scenario_spy =
     [\<lparr>sg_appId = 10, sg_name = ''Foo'', sg_currentPlayers = 0, sg_owners = Num 0,
       sg_averagePlaytime = Num 0\<rparr>,
      \<lparr>sg_appId = 20, sg_name = ''Bar'', sg_currentPlayers = 5, sg_owners = Num 0,
       sg_averagePlaytime = Num 0\<rparr>]"

definition scenario_apps :: "steam_app list" where
  "scenario_apps = [\<lparr>app_appid = 30, app_name = ''Baz''\<rparr>]"

text \<open>
  The merge of \<^verbatim>\<open>fetch-steam-charts.js\<close> has the first two passes only, and its
  objects carry no priority and no source: a Steam Charts game is stored as it is, a
  SteamSpy game fills the name of an identifier that is present if that name is empty,
  and is stored as it is otherwise.
\<close>

record charts_candidate =
  cc_appId :: int
  cc_name :: "string option"
  cc_rank :: "int option"
  cc_currentPlayers :: int
  cc_peak24h :: "int option"
  cc_owners :: "jsval option"
  cc_averagePlaytime :: "jsval option"

definition charts_set_chart :: "chart_game \<Rightarrow> (int \<times> charts_candidate) list \<Rightarrow> (int \<times> charts_candidate) list" where
  "charts_set_chart g m =
     map_set (cg_appId g)
       \<lparr>cc_appId = cg_appId g, cc_name = None, cc_rank = cg_rank g,
        cc_currentPlayers = cg_currentPlayers g, cc_peak24h = Some (cg_peak24h g),
        cc_owners = None, cc_averagePlaytime = None\<rparr> m"

definition charts_merge_spy :: "spy_game \<Rightarrow> (int \<times> charts_candidate) list \<Rightarrow> (int \<times> charts_candidate) list" where
  "charts_merge_spy g m =
     (case map_of m (sg_appId g) of
        Some existing \<Rightarrow>
          map_set (sg_appId g)
            (existing\<lparr>cc_name := (if js_truthy_str (cc_name existing) then cc_name existing
                                   else Some (sg_name g))\<rparr>) m
      | None \<Rightarrow>
          map_set (sg_appId g)
            \<lparr>cc_appId = sg_appId g, cc_name = Some (sg_name g), cc_rank = None,
             cc_currentPlayers = sg_currentPlayers g, cc_peak24h = None,
             cc_owners = Some (sg_owners g),
             cc_averagePlaytime = Some (sg_averagePlaytime g)\<rparr> m)"

definition charts_allGames :: "chart_game list \<Rightarrow> spy_game list \<Rightarrow> charts_candidate list" where
  "charts_allGames steamChartsGames steamSpyGames =
     map snd (fold charts_merge_spy steamSpyGames (fold charts_set_chart steamChartsGames []))"

text \<open>
  The object each pass stores for an identifier that is not in the map yet.
\<close>

definition entry_of_chart :: "chart_game \<Rightarrow> game" where
  "entry_of_chart g =
     \<lparr>appId = cg_appId g, name = None, rank = cg_rank g,
      currentPlayers = Some (cg_currentPlayers g), peak24h = Some (cg_peak24h g),
      owners = None, averagePlaytime = None, priority = 1, source = ''steam-charts''\<rparr>"

definition entry_of_spy :: "spy_game \<Rightarrow> game" where
  "entry_of_spy g =
     \<lparr>appId = sg_appId g, name = Some (sg_name g), rank = None,
      currentPlayers = Some (sg_currentPlayers g), peak24h = None,
      owners = Some (sg_owners g), averagePlaytime = Some (sg_averagePlaytime g),
      priority = 2, source = ''steamspy''\<rparr>"

definition entry_of_app :: "steam_app \<Rightarrow> game" where
  "entry_of_app a =
     \<lparr>appId = app_appid a, name = Some (app_name a), rank = None,
      currentPlayers = Some 0, peak24h = None, owners = None,
      averagePlaytime = None, priority = 3, source = ''steam-all-apps''\<rparr>"

text \<open>
  What the lower-priority passes over the SteamSpy candidates \<open>ss\<close> may do to the
  record \<open>e\<close> stored for \<open>k\<close>: nothing but its name and its owners change; a populated
  name stays, an empty one stays or becomes the name of a candidate with the identifier
  \<open>k\<close>; the owners stay or become the owners of such a candidate.
\<close>

definition lower_pass_effect :: "spy_game list \<Rightarrow> int \<Rightarrow> game \<Rightarrow> game \<Rightarrow> bool" where
  "lower_pass_effect ss k e e' =
     (e' = e\<lparr>name := name e', owners := owners e'\<rparr>
      \<and> (if js_truthy_str (name e) then name e' = name e
         else name e' = name e \<or> name e' \<in> (\<lambda>g. Some (sg_name g)) ` {g \<in> set ss. sg_appId g = k})
      \<and> (owners e' = owners e
         \<or> owners e' \<in> (\<lambda>g. Some (sg_owners g)) ` {g \<in> set ss. sg_appId g = k}))"

text \<open>
  An all-apps list whose only entry names the identifier \<open>10\<close>, which the Steam Charts
  source of the scenario stores without a name.
\<close>

definition named_app :: "steam_app list" where
  "named_app = [\<lparr>app_appid = 10, app_name = ''Baz''\<rparr>]"

section \<open>Sampling\<close>

text \<open>
  \<^verbatim>\<open>xs.slice(0, size)\<close>: a negative end counts from the end of the array.
\<close>

definition js_slice0 :: "'a list \<Rightarrow> int \<Rightarrow> 'a list" where
  "js_slice0 xs e = (if e < 0 then take (nat (int (length xs) + e)) xs else take (nat e) xs)"

text \<open>
  \<^verbatim>\<open>randomSample(array, size)\<close>. The copy sorted with a random comparator is some
  rearrangement of the array; \<open>shuffle\<close> is the rearrangement this run produces.
\<close>

definition randomSample :: "('a list \<Rightarrow> 'a list) \<Rightarrow> 'a list \<Rightarrow> int \<Rightarrow> 'a list" where
  "randomSample shuffle array sz =
     (if int (length array) \<le> sz then array else js_slice0 (shuffle array) sz)"

text \<open>Phase 3, with the target size as a parameter; the script uses \<open>TARGET_GAMES\<close>.\<close>

definition sample_games :: "nat \<Rightarrow> (game list \<Rightarrow> game list) \<Rightarrow> game list \<Rightarrow> game list" where
  "sample_games target shuffle games =
     (if target < length games then
        (let priority1And2 = filter (\<lambda>g. priority g \<le> 2) games;
             priority3Games = filter (\<lambda>g. priority g = 3) games;
             remainingSlots = int target - int (length priority1And2)
         in priority1And2 @ randomSample shuffle priority3Games remainingSlots)
      else games)"

definition gamesToProcess ::
  "(game list \<Rightarrow> game list) \<Rightarrow> chart_game list \<Rightarrow> spy_game list \<Rightarrow> steam_app list \<Rightarrow> game list" where
  "gamesToProcess shuffle steamChartsGames steamSpyGames allSteamApps =
     sample_games TARGET_GAMES shuffle (allUniqueGames steamChartsGames steamSpyGames allSteamApps)"

text \<open>
  A merged list that is too long although it has few priority-3 entries: \<open>n\<close>
  candidates of priority 1 with the identifiers \<open>0, ..., n - 1\<close>, then two of priority
  3 with the identifiers \<open>n\<close> and \<open>n + 1\<close>.
\<close>

definition candidate :: "int \<Rightarrow> int \<Rightarrow> game" where
  "candidate p i =
     \<lparr>appId = i, name = None, rank = None, currentPlayers = Some 0, peak24h = None,
      owners = None, averagePlaytime = None, priority = p, source = ''''\<rparr>"

definition crowded :: "nat \<Rightarrow> game list" where
  "crowded n = map (candidate 1) (many_ids n) @ [candidate 3 (int n), candidate 3 (int n + 1)]"

section \<open>Building, ranking and validating the dataset\<close>

text \<open>Decimal numerals, as a template literal prints an integer.\<close>

definition digit_char :: "nat \<Rightarrow> char" where
  "digit_char d = ''0123456789'' ! d"

fun decimal :: "nat \<Rightarrow> string" where
  "decimal n = (if 10 \<le> n then decimal (n div 10) @ [digit_char (n mod 10)] else [digit_char n])"

declare decimal.simps [simp del]

definition template_int :: "int \<Rightarrow> string" where
  "template_int i = (if 0 \<le> i then decimal (nat i) else CHR ''-'' # decimal (nat (- i)))"

record final_game =
  fg_name :: string
  fg_appId :: int
  fg_currentPlayers :: int
  fg_peak24h :: int
  fg_trending :: trend
  fg_source :: string
  fg_owners :: jsval
  fg_rank :: "nat option"

text \<open>
  The body of \<^verbatim>\<open>playerResults.forEach\<close> in phase 5 for a result and the candidate
  \<^verbatim>\<open>gameMap.get(result.appId)\<close> found for it: \<open>None\<close> when nothing is pushed.
  \<^verbatim>\<open>gameInfo.currentPlayers > 0\<close> is false for a missing count, and
  \<^verbatim>\<open>gameInfo.currentPlayers || 0\<close> is \<open>0\<close> for it. \<^verbatim>\<open>processGamesInBatches\<close> of
  \<^verbatim>\<open>fetch-steam-charts.js\<close> has the same test and the same maximum.
\<close>

definition static_players :: "game \<Rightarrow> int" where
  "static_players gameInfo = (case currentPlayers gameInfo of None \<Rightarrow> 0 | Some n \<Rightarrow> n)"

definition finalPlayerCount :: "fetch_outcome \<Rightarrow> game \<Rightarrow> int" where
  "finalPlayerCount result gameInfo = max (players result) (static_players gameInfo)"

definition joined :: "fetch_outcome \<Rightarrow> game \<Rightarrow> final_game option" where
  "joined result gameInfo =
     (if 0 < players result \<or> (case currentPlayers gameInfo of None \<Rightarrow> False | Some n \<Rightarrow> 0 < n) then
        (let final = finalPlayerCount result gameInfo;
             peak = (if js_falsy_num (peak24h gameInfo) then final else the (peak24h gameInfo))
         in Some \<lparr>fg_name = (if js_truthy_str (name gameInfo) then the (name gameInfo)
                              else ''Game '' @ template_int (fo_appId result)),
                  fg_appId = fo_appId result,
                  fg_currentPlayers = final,
                  fg_peak24h = peak,
                  fg_trending = calculateTrending final (Some peak),
                  fg_source = source gameInfo,
                  fg_owners = (if js_truthy (owners gameInfo) then the (owners gameInfo) else Num 0),
                  fg_rank = None\<rparr>)
      else None)"

text \<open>
  \<^verbatim>\<open>new Map(gamesToProcess.map(g => [g.appId, g]))\<close>: the last entry of an identifier
  is the one the map holds.
\<close>

definition gameMap :: "game list \<Rightarrow> int \<rightharpoonup> game" where
  "gameMap games = map_of (rev (map (\<lambda>g. (appId g, g)) games))"

definition join_result :: "game list \<Rightarrow> fetch_outcome \<Rightarrow> final_game option" where
  "join_result games result =
     (case gameMap games (fo_appId result) of
        None \<Rightarrow> None
      | Some gameInfo \<Rightarrow> joined result gameInfo)"

text \<open>\<^verbatim>\<open>gamesWithPlayers\<close> after the loop: the pushed records, in the order of the results.\<close>

definition aggregate :: "game list \<Rightarrow> fetch_outcome list \<Rightarrow> final_game list" where
  "aggregate games playerResults = List.map_filter (join_result games) playerResults"

text \<open>
  \<^verbatim>\<open>sort((a, b) => b.currentPlayers - a.currentPlayers)\<close> is a stable sort by
  descending count; \<^verbatim>\<open>forEach((game, index) => game.rank = index + 1)\<close> numbers the
  sorted records.
\<close>

definition sort_by_players :: "final_game list \<Rightarrow> final_game list" where
  "sort_by_players gs = sort_key (\<lambda>g. - fg_currentPlayers g) gs"

definition assign_ranks :: "final_game list \<Rightarrow> final_game list" where
  "assign_ranks gs = map (\<lambda>(index, g). g\<lparr>fg_rank := Some (index + 1)\<rparr>) (enumerate 0 gs)"

datatype error = Error string

text \<open>
  The message of the validation error of \<^verbatim>\<open>part_000\<close>. The source file holds
  three characters in front of \<^verbatim>\<open>FAILED\<close>; the message starts with their seven
  bytes in UTF-8.
\<close>

definition below_minimum_message :: "nat \<Rightarrow> string" where
  "below_minimum_message n =
     [CHR 0xE2, CHR 0x80, CHR 0x9A, CHR 0xC3, CHR 0xB9, CHR 0xC3, CHR 0xA5]
     @ '' FAILED: Only '' @ decimal n
     @ '' games with player data found. Minimum required: ''
     @ decimal MIN_GAMES_REQUIRED"

record metadata =
  totalGames :: nat
  totalPlayers :: int
  totalProcessed :: nat
  md_failedRequests :: nat

text \<open>
  The result object. \<^verbatim>\<open>games\<close> is keyed by identifier; \<open>ranking\<close> keeps the ranked
  array the object is filled from.
\<close>

record dataset =
  md :: metadata
  games_by_id :: "int \<rightharpoonup> final_game"
  ranking :: "final_game list"

text \<open>
  \<^verbatim>\<open>fetchAllSteamData\<close> from phase 2 on. The inputs are what the three adapters
  returned (an adapter that failed returned the empty list), the rearrangement the
  sampler draws, the remote endpoint, and the fetcher after phase 1.
\<close>

definition gamesWithPlayers ::
  "(game list \<Rightarrow> game list) \<Rightarrow> (int \<Rightarrow> nat \<Rightarrow> pc_json response) \<Rightarrow>
   steam_app list \<Rightarrow> chart_game list \<Rightarrow> spy_game list \<Rightarrow> fetcher \<Rightarrow> final_game list" where
  "gamesWithPlayers shuffle net allSteamApps steamChartsGames steamSpyGames st =
     (let toProcess = gamesToProcess shuffle steamChartsGames steamSpyGames allSteamApps
      in aggregate toProcess (fst (fetchPlayerCountsParallel net (map appId toProcess) st)))"

definition fetchAllSteamData ::
  "(game list \<Rightarrow> game list) \<Rightarrow> (int \<Rightarrow> nat \<Rightarrow> pc_json response) \<Rightarrow>
   steam_app list \<Rightarrow> chart_game list \<Rightarrow> spy_game list \<Rightarrow> fetcher \<Rightarrow> (error + dataset) \<times> fetcher" where
  "fetchAllSteamData shuffle net allSteamApps steamChartsGames steamSpyGames st =
     (let toProcess = gamesToProcess shuffle steamChartsGames steamSpyGames allSteamApps;
          (playerResults, st') = fetchPlayerCountsParallel net (map appId toProcess) st;
          withPlayers = aggregate toProcess playerResults
      in if length withPlayers < MIN_GAMES_REQUIRED
         then (Inl (Error (below_minimum_message (length withPlayers))), st')
         else
           (let ranked = assign_ranks (sort_by_players withPlayers);
                gamesObject = map_of (rev (map (\<lambda>g. (fg_appId g, g)) ranked))
            in (Inr \<lparr>md = \<lparr>totalGames = length (remdups (map fg_appId ranked)),
                           totalPlayers = sum_list (map fg_currentPlayers withPlayers),
                           totalProcessed = length playerResults,
                           md_failedRequests = failedRequests st'\<rparr>,
                      games_by_id = gamesObject,
                      ranking = ranked\<rparr>, st')))"

text \<open>
  \<^verbatim>\<open>main\<close>: the exit status and the dataset handed to \<^verbatim>\<open>saveData\<close>, if any. The
  second check compares \<^verbatim>\<open>metadata.totalGames\<close> with the minimum again.
\<close>

definition main_run ::
  "(game list \<Rightarrow> game list) \<Rightarrow> (int \<Rightarrow> nat \<Rightarrow> pc_json response) \<Rightarrow>
   steam_app list \<Rightarrow> chart_game list \<Rightarrow> spy_game list \<Rightarrow> fetcher \<Rightarrow> nat \<times> dataset option" where
  "main_run shuffle net allSteamApps steamChartsGames steamSpyGames st =
     (case fst (fetchAllSteamData shuffle net allSteamApps steamChartsGames steamSpyGames st) of
        Inl err \<Rightarrow> (1, None)
      | Inr data \<Rightarrow>
          if totalGames (md data) < MIN_GAMES_REQUIRED then (1, None) else (0, Some data))"

section \<open>The SteamSpy script\<close>

text \<open>
  \<^verbatim>\<open>fetchAllGames\<close> of \<^verbatim>\<open>fetch-steamspy-data.js\<close> from the sort on. A record of
  \<^verbatim>\<open>this.games\<close> is kept with the fields the ranking reads and writes. The object is
  the list of its entries in the order in which they were stored; its keys are
  identifiers written in decimal. \<^verbatim>\<open>Object.values\<close> enumerates the keys that are
  array indices (the integers below \<open>2\<^sup>3\<^sup>2 - 1\<close>) first, in ascending numeric order
  whatever the order of insertion, and the other keys after them in the order of
  insertion.
\<close>

record spy_record =
  sr_name :: string
  sr_appId :: nat
  sr_currentPlayers :: int
  sr_rank :: "nat option"

record spy_fetcher =
  sf_games :: "(nat \<times> spy_record) list"
  sf_totalPlayers :: int
  sf_totalGames :: nat

definition is_array_index :: "nat \<Rightarrow> bool" where
  "is_array_index k = (k < 4294967295)"

definition object_values :: "(nat \<times> 'a) list \<Rightarrow> 'a list" where
  "object_values obj =
     map snd (sort_key fst (filter (\<lambda>entry. is_array_index (fst entry)) obj)
              @ filter (\<lambda>entry. \<not> is_array_index (fst entry)) obj)"

definition spy_sort :: "spy_record list \<Rightarrow> spy_record list" where
  "spy_sort gs = sort_key (\<lambda>g. - sr_currentPlayers g) gs"

definition spy_assign_ranks :: "spy_record list \<Rightarrow> spy_record list" where
  "spy_assign_ranks gs = map (\<lambda>(index, g). g\<lparr>sr_rank := Some (index + 1)\<rparr>) (enumerate 0 gs)"

definition sortedGames :: "spy_fetcher \<Rightarrow> spy_record list" where
  "sortedGames st = spy_assign_ranks (spy_sort (object_values (sf_games st)))"

definition spy_below_minimum_message :: "nat \<Rightarrow> string" where
  "spy_below_minimum_message n =
     [CHR 0xE2, CHR 0x9D, CHR 0x8C] @ '' FAILED: Only '' @ decimal n
     @ '' active games found. Minimum required: ''
     @ decimal MIN_GAMES_REQUIRED"

record spy_metadata =
  sm_totalGames :: nat
  sm_totalPlayers :: int
  sm_totalScanned :: nat

record spy_dataset =
  sd_metadata :: spy_metadata
  sd_ranking :: "spy_record list"

definition fetchAllGames_result :: "spy_fetcher \<Rightarrow> error + spy_dataset" where
  "fetchAllGames_result st =
     (let sorted = sortedGames st;
          res = \<lparr>sd_metadata = \<lparr>sm_totalGames = length sorted,
                                sm_totalPlayers = sf_totalPlayers st,
                                sm_totalScanned = sf_totalGames st\<rparr>,
                 sd_ranking = sorted\<rparr>
      in if sm_totalGames (sd_metadata res) < MIN_GAMES_REQUIRED
         then Inl (Error (spy_below_minimum_message (sm_totalGames (sd_metadata res))))
         else Inr res)"

text \<open>
  A state of the SteamSpy script after two pages of \<open>half\<close> games each, every game
  with one player: the first page stored the identifiers \<open>half + 1, ..., 2 * half\<close>, the
  second the identifiers \<open>1, ..., half\<close>.
\<close>

definition spy_entry :: "nat \<Rightarrow> nat \<times> spy_record" where
  "spy_entry i = (i, \<lparr>sr_name = ''Game'', sr_appId = i, sr_currentPlayers = 1, sr_rank = None\<rparr>)"

definition two_pages :: "nat \<Rightarrow> spy_fetcher" where
  "two_pages half =
     \<lparr>sf_games = map spy_entry ([Suc half..<Suc (2 * half)] @ [1..<Suc half]),
      sf_totalPlayers = int (2 * half),
      sf_totalGames = 2 * half\<rparr>"

text \<open>
  An all-apps list of \<open>n\<close> entries with the identifiers \<open>1, ..., n\<close>, and an
  endpoint that reports one player for every game at the first attempt.
\<close>

definition app_numbered :: "nat \<Rightarrow> steam_app" where
  "app_numbered i = \<lparr>app_appid = int i, app_name = ''App''\<rparr>"

definition many_apps :: "nat \<Rightarrow> steam_app list" where
  "many_apps n = map app_numbered [1..<Suc n]"

definition busy :: "int \<Rightarrow> nat \<Rightarrow> pc_json response" where
  "busy a i = OkJson (Some \<lparr>pc_result = Some 1, pc_player_count = Some 1\<rparr>)"

text \<open>Fetch results for the three candidates of the scenario.\<close>

definition scenario_results :: "fetch_outcome list" where
  "scenario_results =
     [\<lparr>fo_appId = 10, players = 0\<rparr>, \<lparr>fo_appId = 20, players = 7\<rparr>, \<lparr>fo_appId = 30, players = 0\<rparr>]"

text \<open>
  The fields no lower-priority pass writes, and what such a pass may do to the name of
  the record stored for \<open>k\<close>: keep it, or, if it is empty, take the name of a SteamSpy
  candidate with the same identifier.
\<close>

definition same_core :: "game \<Rightarrow> game \<Rightarrow> bool" where
  "same_core e e' =
     (appId e' = appId e \<and> rank e' = rank e \<and> currentPlayers e' = currentPlayers e
      \<and> peak24h e' = peak24h e \<and> priority e' = priority e \<and> source e' = source e)"

definition name_backfilled :: "spy_game list \<Rightarrow> int \<Rightarrow> game \<Rightarrow> game \<Rightarrow> bool" where
  "name_backfilled ss k e e' =
     (if js_truthy_str (name e) then name e' = name e
      else name e' = name e \<or> name e' \<in> (\<lambda>g. Some (sg_name g)) ` {g \<in> set ss. sg_appId g = k})"

text \<open>A map that already holds a named record for the identifier \<open>10\<close>.\<close>

definition keep_entry :: game where
  "keep_entry = (candidate 1 10)\<lparr>name := Some ''Keep'', currentPlayers := Some 500\<rparr>"

definition keep_map :: games_map where
  "keep_map = [(10, keep_entry)]"

text \<open>A record without its rank.\<close>

definition unranked :: "final_game \<Rightarrow> final_game" where
  "unranked g = g\<lparr>fg_rank := None\<rparr>"

definition spy_unranked :: "spy_record \<Rightarrow> spy_record" where
  "spy_unranked g = g\<lparr>sr_rank := None\<rparr>"

section \<open>Properties\<close>

text \<open>
  C7. The classifier with the \<open>ratio > 0.7\<close> branch is extensionally equal to the
  two-way classifier: it answers \<open>Stable\<close> exactly when the peak is missing or zero,
  equals the current count, or the quotient exceeds \<open>0.9\<close>, and \<open>Down\<close> otherwise.
\<close>

theorem calculateTrending_two_way:
  "calculateTrending current peak = classify_two_way current peak
   \<and> (calculateTrending current peak = Stable) =
       (peak = None \<or> peak = Some 0 \<or> peak = Some current
        \<or> (\<exists>p. peak = Some p \<and> ratio current p > 9 / 10))
   \<and> (calculateTrending current peak = Down) =
       (\<not> (peak = None \<or> peak = Some 0 \<or> peak = Some current
        \<or> (\<exists>p. peak = Some p \<and> ratio current p > 9 / 10)))"
  by (cases peak) (auto simp: calculateTrending_def classify_two_way_def js_falsy_num_def)

subsection \<open>The retry loop\<close>

text \<open>One round of the loop of \<^verbatim>\<open>part_000\<close>, case by case.\<close>

lemma is_failure_try: "is_failure r \<Longrightarrow> \<exists>e. try_fetch r = Inl e"
  by (cases r) (auto simp: is_failure_def)

lemma not_failure_try: "\<not> is_failure r \<Longrightarrow> \<exists>b. try_fetch r = Inr b"
  by (cases r) (auto simp: is_failure_def)

lemma makeRequest_from_stop:
  "\<not> i < retries \<Longrightarrow> makeRequest_from net retries i st = (None, st)"
  by (simp add: makeRequest_from.simps)

lemma makeRequest_from_ok:
  "i < retries \<Longrightarrow> \<not> is_failure (net i) \<Longrightarrow>
   snd (makeRequest_from net retries i st) = st\<lparr>events := events st @ [Attempt i]\<rparr>"
  using not_failure_try[of "net i"]
  by (subst makeRequest_from.simps) (auto simp: Let_def)

lemma makeRequest_from_last:
  "i < retries \<Longrightarrow> is_failure (net i) \<Longrightarrow> i = retries - 1 \<Longrightarrow>
   makeRequest_from net retries i st =
     (None, st\<lparr>events := events st @ [Attempt i], failedRequests := failedRequests st + 1\<rparr>)"
  using is_failure_try[of "net i"]
  by (subst makeRequest_from.simps) (auto simp: Let_def)

lemma makeRequest_from_retry:
  "i < retries \<Longrightarrow> is_failure (net i) \<Longrightarrow> i \<noteq> retries - 1 \<Longrightarrow>
   makeRequest_from net retries i st =
     makeRequest_from net retries (Suc i)
       (st\<lparr>failedRequests := failedRequests st + 1,
           events := events st @ [Attempt i] @ (if 0 < i then [Sleep (100 * i)] else [])\<rparr>)"
  using is_failure_try[of "net i"]
  by (cases st, subst makeRequest_from.simps) (auto simp: Let_def)

lemma failed_from:
  "failedRequests (snd (makeRequest_from net retries i st)) =
     failedRequests st + length (takeWhile is_failure (map net [i..<retries]))"
proof (induction "retries - i" arbitrary: i st)
  case 0
  then show ?case by (simp add: makeRequest_from_stop)
next
  case (Suc n)
  then have lt: "i < retries" by simp
  then have upt: "[i..<retries] = i # [Suc i..<retries]" by (simp add: upt_conv_Cons)
  show ?case
  proof (cases "is_failure (net i)")
    case False
    then show ?thesis using lt upt by (simp add: makeRequest_from_ok)
  next
    case True
    show ?thesis
    proof (cases "i = retries - 1")
      case True
      then have "[Suc i..<retries] = []" by simp
      then show ?thesis using lt upt \<open>is_failure (net i)\<close> True
        by (simp add: makeRequest_from_last)
    next
      case False
      have "n = retries - Suc i" using Suc.hyps(2) by simp
      from Suc.hyps(1)[OF this] show ?thesis using lt upt \<open>is_failure (net i)\<close> False
        by (simp add: makeRequest_from_retry)
    qed
  qed
qed

lemma events_from:
  "i < retries \<Longrightarrow>
   events (snd (makeRequest_from net retries i st)) =
     events st @ [Attempt i] @
     concat (map (\<lambda>j. (if 2 \<le> j then [Sleep (100 * (j - 1))] else []) @ [Attempt j])
       [Suc i..<min retries (Suc (i + length (takeWhile is_failure (map net [i..<retries]))))])"
proof (induction "retries - i" arbitrary: i st)
  case 0
  then show ?case by simp
next
  case (Suc n)
  then have lt: "i < retries" by simp
  then have upt: "[i..<retries] = i # [Suc i..<retries]" by (simp add: upt_conv_Cons)
  show ?case
  proof (cases "is_failure (net i)")
    case False
    then show ?thesis using lt upt by (simp add: makeRequest_from_ok)
  next
    case True
    show ?thesis
    proof (cases "i = retries - 1")
      case True
      then have "[Suc i..<retries] = []" by simp
      then show ?thesis using lt upt \<open>is_failure (net i)\<close> True
        by (simp add: makeRequest_from_last)
    next
      case False
      have n: "n = retries - Suc i" using Suc.hyps(2) by simp
      have lt': "Suc i < retries" using lt False by simp
      let ?m = "min retries (Suc (Suc i + length (takeWhile is_failure (map net [Suc i..<retries]))))"
      have m: "Suc (Suc i) \<le> ?m" using lt' by simp
      then have split: "[Suc i..<?m] = Suc i # [Suc (Suc i)..<?m]" by (simp add: upt_conv_Cons)
      from Suc.hyps(1)[OF n lt'] show ?thesis using lt upt \<open>is_failure (net i)\<close> False split
        by (simp add: makeRequest_from_retry)
    qed
  qed
qed

lemma makeRequest_log:
  "events (snd (makeRequest net retries st)) =
     events st @ concat (map (\<lambda>j. (if 2 \<le> j then [Sleep (100 * (j - 1))] else []) @ [Attempt j])
       [0..<attempts_made net retries])"
proof (cases "0 < retries")
  case False
  then show ?thesis by (simp add: makeRequest_def makeRequest_from_stop attempts_made_def)
next
  case True
  have "[0..<attempts_made net retries] = 0 # [Suc 0..<attempts_made net retries]"
    using True by (simp add: attempts_made_def upt_conv_Cons)
  then show ?thesis using events_from[OF True, of net st]
    by (simp add: makeRequest_def attempts_made_def failed_attempts_def)
qed

lemma makeRequest_from_None:
  "\<forall>k<retries. is_failure (net k) \<Longrightarrow> fst (makeRequest_from net retries i st) = None"
proof (induction "retries - i" arbitrary: i st)
  case 0
  then show ?case by (simp add: makeRequest_from_stop)
next
  case (Suc n)
  then have lt: "i < retries" by simp
  then have f: "is_failure (net i)" using Suc.prems by simp
  show ?case
  proof (cases "i = retries - 1")
    case True
    then show ?thesis using lt f by (simp add: makeRequest_from_last)
  next
    case False
    have "n = retries - Suc i" using Suc.hyps(2) by simp
    from Suc.hyps(1)[OF this Suc.prems] show ?thesis using lt f False
      by (simp add: makeRequest_from_retry)
  qed
qed

lemma takeWhile_all_failures:
  "\<forall>k<retries. is_failure (net k) \<Longrightarrow> takeWhile is_failure (map net [0..<retries]) = map net [0..<retries]"
  by (simp add: takeWhile_eq_all_conv)

lemma makeRequest_log_backoff:
  "events (snd (makeRequest net retries st)) =
     events st @ backoff_log aggressive_delay (attempts_made net retries)"
proof -
  have "(\<lambda>j. (if 2 \<le> j then [Sleep (100 * (j - 1))] else []) @ [Attempt j]) =
        (\<lambda>j. (case aggressive_delay j of None \<Rightarrow> [] | Some d \<Rightarrow> [Sleep d]) @ [Attempt j])"
    by (auto simp: aggressive_delay_def fun_eq_iff)
  then show ?thesis by (simp add: makeRequest_log backoff_log_def)
qed

text \<open>One round of the loop of \<^verbatim>\<open>fetch-steam-charts.js\<close>.\<close>

lemma charts_from_stop:
  "\<not> i < retries \<Longrightarrow> charts_makeRequest_from net retries i evs = (Inr None, evs)"
  by (simp add: charts_makeRequest_from.simps)

lemma charts_from_ok:
  "i < retries \<Longrightarrow> \<not> is_failure (net i) \<Longrightarrow>
   snd (charts_makeRequest_from net retries i evs) = evs @ [Attempt i]"
  using not_failure_try[of "net i"]
  by (subst charts_makeRequest_from.simps) (auto simp: Let_def)

lemma charts_from_last:
  "i < retries \<Longrightarrow> is_failure (net i) \<Longrightarrow> i = retries - 1 \<Longrightarrow>
   snd (charts_makeRequest_from net retries i evs) = evs @ [Attempt i]"
  using is_failure_try[of "net i"]
  by (subst charts_makeRequest_from.simps) (auto simp: Let_def)

lemma charts_from_retry:
  "i < retries \<Longrightarrow> is_failure (net i) \<Longrightarrow> i \<noteq> retries - 1 \<Longrightarrow>
   charts_makeRequest_from net retries i evs =
     charts_makeRequest_from net retries (Suc i) (evs @ [Attempt i, Sleep (1000 * Suc i)])"
  using is_failure_try[of "net i"]
  by (subst charts_makeRequest_from.simps) (auto simp: Let_def)

lemma charts_events_from:
  "i < retries \<Longrightarrow>
   snd (charts_makeRequest_from net retries i evs) =
     evs @ [Attempt i] @
     concat (map (\<lambda>j. (if 0 < j then [Sleep (1000 * j)] else []) @ [Attempt j])
       [Suc i..<min retries (Suc (i + length (takeWhile is_failure (map net [i..<retries]))))])"
proof (induction "retries - i" arbitrary: i evs)
  case 0
  then show ?case by simp
next
  case (Suc n)
  then have lt: "i < retries" by simp
  then have upt: "[i..<retries] = i # [Suc i..<retries]" by (simp add: upt_conv_Cons)
  show ?case
  proof (cases "is_failure (net i)")
    case False
    then show ?thesis using lt upt by (simp add: charts_from_ok)
  next
    case True
    show ?thesis
    proof (cases "i = retries - 1")
      case True
      then have "[Suc i..<retries] = []" by simp
      then show ?thesis using lt upt \<open>is_failure (net i)\<close> True
        by (simp add: charts_from_last)
    next
      case False
      have n: "n = retries - Suc i" using Suc.hyps(2) by simp
      have lt': "Suc i < retries" using lt False by simp
      let ?m = "min retries (Suc (Suc i + length (takeWhile is_failure (map net [Suc i..<retries]))))"
      have m: "Suc (Suc i) \<le> ?m" using lt' by simp
      then have split: "[Suc i..<?m] = Suc i # [Suc (Suc i)..<?m]" by (simp add: upt_conv_Cons)
      from Suc.hyps(1)[OF n lt'] show ?thesis using lt upt \<open>is_failure (net i)\<close> False split
        by (simp add: charts_from_retry)
    qed
  qed
qed

lemma charts_log_backoff:
  "snd (charts_makeRequest net retries) = backoff_log charts_delay (attempts_made net retries)"
proof (cases "0 < retries")
  case False
  then show ?thesis
    by (simp add: charts_makeRequest_def charts_from_stop attempts_made_def backoff_log_def)
next
  case True
  have eq: "\<And>j. (if 0 < j then [Sleep (1000 * j)] else []) =
        (case charts_delay j of None \<Rightarrow> [] | Some d \<Rightarrow> [Sleep d])"
    by (simp add: charts_delay_def)
  have z: "charts_delay 0 = None"
    by (simp add: charts_delay_def)
  have "[0..<attempts_made net retries] = 0 # [Suc 0..<attempts_made net retries]"
    using True by (simp add: attempts_made_def upt_conv_Cons)
  then show ?thesis using charts_events_from[OF True, of net "[]"]
    by (simp add: charts_makeRequest_def attempts_made_def failed_attempts_def backoff_log_def eq z)
qed

lemma delays_append: "delays (xs @ ys) = delays xs @ delays ys"
  by (induction xs rule: delays.induct) auto

lemma backoff_log_Suc:
  "backoff_log delay (Suc n) =
     backoff_log delay n @ (case delay n of None \<Rightarrow> [] | Some d \<Rightarrow> [Sleep d]) @ [Attempt n]"
  by (simp add: backoff_log_def)

lemma delays_backoff_log:
  "delays (backoff_log delay n) =
     concat (map (\<lambda>j. case delay j of None \<Rightarrow> [] | Some d \<Rightarrow> [d]) [0..<n])"
proof (induction n)
  case 0
  then show ?case by (simp add: backoff_log_def)
next
  case (Suc n)
  then show ?case by (simp add: backoff_log_Suc delays_append split: option.split)
qed

lemma delays_aggressive:
  "delays (backoff_log aggressive_delay n) = map (\<lambda>j. 100 * (j - 1)) [2..<n]"
proof -
  have "concat (map (\<lambda>j. case aggressive_delay j of None \<Rightarrow> [] | Some d \<Rightarrow> [d]) [0..<n]) =
        map (\<lambda>j. 100 * (j - 1)) [2..<n]"
    by (induction n) (auto simp: aggressive_delay_def)
  then show ?thesis by (simp add: delays_backoff_log)
qed

lemma delays_increasing:
  "sorted_wrt (<) (delays (backoff_log aggressive_delay n))"
proof -
  have "sorted_wrt (\<lambda>x y. 100 * (x - 1) < 100 * (y - (1::nat))) [2..<n]"
    by (rule sorted_wrt_mono_rel[OF _ sorted_wrt_upt]) auto
  then show ?thesis by (simp add: delays_aggressive sorted_wrt_map)
qed

subsection \<open>The concurrent fetcher\<close>

lemma chunks_from_unfold:
  "0 < K \<Longrightarrow> i < length xs \<Longrightarrow>
   chunks_from K i xs = take K (drop i xs) # chunks_from K (i + K) xs"
  by (subst chunks_from.simps) simp

lemma chunks_from_done: "\<not> i < length xs \<Longrightarrow> chunks_from K i xs = []"
  by (subst chunks_from.simps) simp

lemma concat_chunks_from: "0 < K \<Longrightarrow> concat (chunks_from K i xs) = drop i xs"
proof (induction K i xs rule: chunks_from.induct)
  case (1 K i xs)
  show ?case
  proof (cases "i < length xs")
    case False
    then show ?thesis by (simp add: chunks_from_done)
  next
    case True
    have "take K (drop i xs) @ drop (i + K) xs = drop i xs"
      by (metis add.commute append_take_drop_id drop_drop)
    then show ?thesis using True "1.prems" "1.IH"
      by (simp add: chunks_from_unfold)
  qed
qed

lemma fetch_one_appId: "fo_appId (fst (fetch_one net a st)) = a"
  by (simp add: fetch_one_def case_prod_beta)

lemma fetch_one_failed:
  "failedRequests (snd (fetch_one net a st)) =
     failedRequests st + failed_attempts (net a) MAX_RETRIES"
  using failed_from[of "net a" MAX_RETRIES 0 st]
  by (simp add: fetch_one_def fetchWithRetry_def makeRequest_def failed_attempts_def
      case_prod_beta)

lemma fetch_one_exhausted:
  assumes "\<forall>k<MAX_RETRIES. is_failure (net a k)"
  shows "fst (fetch_one net a st) = \<lparr>fo_appId = a, players = 0\<rparr>"
  using makeRequest_from_None[OF assms, of 0 st]
  by (simp add: fetch_one_def fetchWithRetry_def makeRequest_def players_of_def
      case_prod_beta)

lemma fetch_each_appIds: "map fo_appId (fst (fetch_each net appIds st)) = appIds"
  by (induction appIds arbitrary: st) (simp_all add: fetch_one_appId case_prod_beta)

lemma fetch_each_failed:
  "failedRequests (snd (fetch_each net appIds st)) =
     failedRequests st + (\<Sum>a\<leftarrow>appIds. failed_attempts (net a) MAX_RETRIES)"
proof (induction appIds arbitrary: st)
  case Nil
  then show ?case by simp
next
  case (Cons a as)
  show ?case using Cons[of "snd (fetch_one net a st)"]
    by (simp add: case_prod_beta fetch_one_failed)
qed

lemma fetchPlayerCountsParallel_eq:
  "fetchPlayerCountsParallel net appIds st = fetch_each net appIds st"
  by (simp add: fetchPlayerCountsParallel_def concat_chunks_from MAX_CONCURRENT_REQUESTS_def
      case_prod_beta)

lemma failed_attempts_all:
  "\<forall>k<retries. is_failure (net k) \<Longrightarrow> failed_attempts net retries = retries"
  by (simp add: failed_attempts_def takeWhile_all_failures)

text \<open>
  C4 (as amended). A lookup whose every attempt fails ends with the outcome
  \<open>players = 0\<close> for its identifier and no exception; the counter
  \<^verbatim>\<open>failedRequests\<close> grows by one per failed attempt, so by \<open>MAX_RETRIES\<close> for
  such a lookup. The outcome record has no \<^verbatim>\<open>succeeded\<close> field. The fetcher returns
  exactly one outcome per input identifier, in input order, and the counter after the
  run is the sum of the failed attempts of all lookups.
\<close>

theorem exhausted_lookup_outcome:
  "((\<forall>k<MAX_RETRIES. is_failure (net a k)) \<longrightarrow>
      fst (fetch_one net a st) = \<lparr>fo_appId = a, players = 0\<rparr>
      \<and> failedRequests (snd (fetch_one net a st)) = failedRequests st + MAX_RETRIES)
   \<and> map fo_appId (fst (fetchPlayerCountsParallel net appIds st)) = appIds
   \<and> failedRequests (snd (fetchPlayerCountsParallel net appIds st)) =
       failedRequests st + (\<Sum>a\<leftarrow>appIds. failed_attempts (net a) MAX_RETRIES)"
  by (simp add: fetch_one_exhausted fetch_one_failed failed_attempts_all
      fetchPlayerCountsParallel_eq fetch_each_appIds fetch_each_failed)

text \<open>The endpoint that never answers fails at every attempt.\<close>

lemma unreachable_fails: "is_failure (unreachable a k)"
  by (simp add: unreachable_def is_failure_def)

text \<open>The theorem at the endpoint that never answers, for the identifier \<open>10\<close>.\<close>

theorem exhausted_lookup_outcome_witness:
  "list_all (\<lambda>k. is_failure (unreachable 10 k)) [0..<MAX_RETRIES]
   \<and> fst (fetch_one unreachable 10 fresh_fetcher) = \<lparr>fo_appId = 10, players = 0\<rparr>
   \<and> failedRequests (snd (fetch_one unreachable 10 fresh_fetcher)) = 5
   \<and> map fo_appId (fst (fetchPlayerCountsParallel unreachable [10, 20] fresh_fetcher)) = [10, 20]"
  using exhausted_lookup_outcome[of unreachable 10 fresh_fetcher "[10, 20]"]
  by (simp add: unreachable_fails list_all_iff fresh_fetcher_def MAX_RETRIES_def)

text \<open>
  C4 as stated asks for an increment of exactly one per failed identifier. One lookup
  against the endpoint that never answers raises the counter from \<open>0\<close> to \<open>5\<close>.
\<close>

theorem failure_counter_counterexample:
  "failedRequests (snd (fetch_one unreachable 10 fresh_fetcher)) = 5
   \<and> failedRequests (snd (fetch_one unreachable 10 fresh_fetcher)) \<noteq> failedRequests fresh_fetcher + 1"
  by (simp add: fetch_one_failed failed_attempts_all unreachable_fails fresh_fetcher_def
      MAX_RETRIES_def)

text \<open>
  C5 (as amended). Both retry loops send at most \<open>retries\<close> requests and stop at the
  first success. In \<^verbatim>\<open>part_000\<close> the first retry follows at once and retry \<open>j \<ge> 2\<close>
  waits \<open>100 * (j - 1)\<close> ms, a strictly increasing sequence of delays. In
  \<^verbatim>\<open>fetch-steam-charts.js\<close> every retry \<open>j \<ge> 1\<close>, the first included, waits
  \<open>1000 * j\<close> ms.
\<close>

theorem retry_backoff:
  "attempts_made net retries \<le> retries
   \<and> events (snd (makeRequest net retries st)) =
       events st @ backoff_log aggressive_delay (attempts_made net retries)
   \<and> sorted_wrt (<) (delays (backoff_log aggressive_delay (attempts_made net retries)))
   \<and> snd (charts_makeRequest net retries) =
       backoff_log charts_delay (attempts_made net retries)"
  by (simp add: makeRequest_log_backoff charts_log_backoff delays_increasing attempts_made_def)

text \<open>
  C5 as stated has the first retry dispatched with no delay. In
  \<^verbatim>\<open>fetch-steam-charts.js\<close>, with its default of three attempts and an endpoint that
  never answers, one second passes between the first attempt and the first retry.
\<close>

theorem charts_first_retry_counterexample:
  "snd (charts_makeRequest (unreachable 10) charts_default_retries) =
     [Attempt 0, Sleep 1000, Attempt 1, Sleep 2000, Attempt 2]"
  by (simp add: charts_log_backoff attempts_made_def failed_attempts_all unreachable_fails
      charts_default_retries_def backoff_log_def charts_delay_def upt_rec)

subsection \<open>The session cache\<close>

lemma cache_hit:
  "playerCache st a = Some v \<Longrightarrow>
   fetchSingleGamePlayerCount now remote a st = (v, st\<lparr>sy_cachedGames := sy_cachedGames st + 1\<rparr>)"
  by (simp add: fetchSingleGamePlayerCount_def)

lemma cache_miss_failure:
  "playerCache st a = None \<Longrightarrow> remote = AxiosThrows \<or> remote = AxiosNoResponse \<Longrightarrow>
   fst (fetchSingleGamePlayerCount now remote a st) = zero_stats
   \<and> playerCache (snd (fetchSingleGamePlayerCount now remote a st)) = playerCache st
   \<and> remote_calls (snd (fetchSingleGamePlayerCount now remote a st)) = remote_calls st @ [a]"
  by (auto simp: fetchSingleGamePlayerCount_def)

lemma cache_miss_calls:
  "playerCache st a = None \<Longrightarrow>
   remote_calls (snd (fetchSingleGamePlayerCount now remote a st)) = remote_calls st @ [a]"
  by (cases remote) (auto simp: fetchSingleGamePlayerCount_def Let_def)

lemma cache_miss_success:
  "playerCache st a = None \<Longrightarrow>
   playerCache (snd (fetchSingleGamePlayerCount now (AxiosResponse pc) a st)) a =
     Some (fst (fetchSingleGamePlayerCount now (AxiosResponse pc) a st))"
  by (simp add: fetchSingleGamePlayerCount_def Let_def)

lemma cache_entry_kept:
  "playerCache st a = Some v \<Longrightarrow>
   playerCache (snd (fetchSingleGamePlayerCount now remote b st)) a = Some v"
  by (cases remote; cases "playerCache st b")
     (auto simp: fetchSingleGamePlayerCount_def Let_def)

lemma lookups_keep_entry:
  "playerCache st a = Some v \<Longrightarrow> playerCache (lookups ops st) a = Some v"
proof (induction ops arbitrary: st)
  case Nil
  then show ?case by simp
next
  case (Cons op ops)
  obtain now remote b where op: "op = (now, remote, b)" by (cases op)
  show ?case using Cons.IH[OF cache_entry_kept[OF Cons.prems, of now remote b]] op by simp
qed

text \<open>
  C10. Only structured successful answers are cached. On a cache miss, a lookup whose
  request throws or whose body lacks the \<^verbatim>\<open>response\<close> field returns the zero-valued
  result and leaves the cache as it was, so the next lookup of the same identifier calls
  the endpoint again; a lookup that gets a response stores exactly the result it
  returns. Once an identifier has an entry, every later lookup of it, after any run of
  other lookups, returns that entry and changes nothing but the cache-hit counter: no
  remote call, and the API-call counter as before.
\<close>

theorem session_cache:
  "(playerCache st a = None \<and> (remote = AxiosThrows \<or> remote = AxiosNoResponse) \<longrightarrow>
      (let st1 = snd (fetchSingleGamePlayerCount now remote a st) in
       fst (fetchSingleGamePlayerCount now remote a st) = zero_stats
       \<and> playerCache st1 = playerCache st
       \<and> remote_calls st1 = remote_calls st @ [a]
       \<and> remote_calls (snd (fetchSingleGamePlayerCount now' remote' a st1)) =
           remote_calls st @ [a, a]))
   \<and> (playerCache st a = None \<longrightarrow>
        playerCache (snd (fetchSingleGamePlayerCount now (AxiosResponse pc) a st)) a =
          Some (fst (fetchSingleGamePlayerCount now (AxiosResponse pc) a st)))
   \<and> (playerCache st a = Some v \<longrightarrow>
        (let st' = lookups ops st in
         fetchSingleGamePlayerCount now remote a st' =
           (v, st'\<lparr>sy_cachedGames := sy_cachedGames st' + 1\<rparr>)))"
proof (intro conjI impI)
  assume h: "playerCache st a = None \<and> (remote = AxiosThrows \<or> remote = AxiosNoResponse)"
  let ?st1 = "snd (fetchSingleGamePlayerCount now remote a st)"
  have m: "fst (fetchSingleGamePlayerCount now remote a st) = zero_stats
     \<and> playerCache ?st1 = playerCache st \<and> remote_calls ?st1 = remote_calls st @ [a]"
    by (rule cache_miss_failure) (use h in simp_all)
  then have "playerCache ?st1 a = None" using h by simp
  from cache_miss_calls[OF this, of now' remote'] m
  show "let st1 = snd (fetchSingleGamePlayerCount now remote a st) in
       fst (fetchSingleGamePlayerCount now remote a st) = zero_stats
       \<and> playerCache st1 = playerCache st
       \<and> remote_calls st1 = remote_calls st @ [a]
       \<and> remote_calls (snd (fetchSingleGamePlayerCount now' remote' a st1)) =
           remote_calls st @ [a, a]"
    by (simp add: Let_def)
next
  assume "playerCache st a = None"
  then show "playerCache (snd (fetchSingleGamePlayerCount now (AxiosResponse pc) a st)) a =
          Some (fst (fetchSingleGamePlayerCount now (AxiosResponse pc) a st))"
    by (rule cache_miss_success)
next
  assume "playerCache st a = Some v"
  then have "playerCache (lookups ops st) a = Some v" by (rule lookups_keep_entry)
  then show "let st' = lookups ops st in
         fetchSingleGamePlayerCount now remote a st' =
           (v, st'\<lparr>sy_cachedGames := sy_cachedGames st' + 1\<rparr>)"
    by (simp add: Let_def cache_hit)
qed

text \<open>
  The theorem at the fresh state (a throwing request, then a body without response) and
  at the state holding the entry for \<open>730\<close>, after a lookup of \<open>570\<close> in between.
\<close>

theorem session_cache_witness:
  "playerCache fresh_sync 730 = None
   \<and> fst (fetchSingleGamePlayerCount ''t0'' AxiosThrows 730 fresh_sync) = zero_stats
   \<and> remote_calls (snd (fetchSingleGamePlayerCount ''t1'' AxiosNoResponse 730
         (snd (fetchSingleGamePlayerCount ''t0'' AxiosThrows 730 fresh_sync)))) = [730, 730]
   \<and> playerCache cached_sync 730 = Some cached_entry
   \<and> fetchSingleGamePlayerCount ''t3'' AxiosThrows 730 (lookups [(''t2'', AxiosResponse (Some 7), 570)] cached_sync) =
       (cached_entry, (lookups [(''t2'', AxiosResponse (Some 7), 570)] cached_sync)
          \<lparr>sy_cachedGames := sy_cachedGames (lookups [(''t2'', AxiosResponse (Some 7), 570)] cached_sync) + 1\<rparr>)"
  using session_cache[of fresh_sync 730 AxiosThrows "''t0''" "''t1''" AxiosNoResponse "Some 5" cached_entry "[]"]
        session_cache[of cached_sync 730 AxiosThrows "''t3''" "''t1''" AxiosNoResponse "Some 5" cached_entry
          "[(''t2'', AxiosResponse (Some 7), 570)]"]
  by (simp add: fresh_sync_def cached_sync_def cached_entry_def Let_def fetchSingleGamePlayerCount_def)

subsection \<open>Dispatch schedules\<close>

lemma peak_ge_inflight: "length inflight \<le> peak_outstanding es inflight"
proof (cases es)
  case Nil
  then show ?thesis by simp
next
  case (Cons e es')
  then show ?thesis by (cases e) auto
qed

lemma peak_dispatches:
  "peak_outstanding (map Dispatch xs @ es) inflight = peak_outstanding es (rev xs @ inflight)"
proof (induction xs arbitrary: inflight)
  case Nil
  then show ?case by simp
next
  case (Cons x xs)
  have "length inflight \<le> peak_outstanding es (rev xs @ x # inflight)"
    using peak_ge_inflight[of "rev xs @ x # inflight" es] by simp
  then show ?case using Cons[of "x # inflight"] by simp
qed

text \<open>
  \<^verbatim>\<open>part_000\<close>: every lookup is in flight before the first await.
\<close>

lemma fetchPlayerCountsParallel_peak:
  "length appIds \<le> peak_outstanding (fetchPlayerCountsParallel_schedule appIds) []"
  using peak_ge_inflight[of "rev appIds" "map AwaitAll (chunks_from MAX_CONCURRENT_REQUESTS 0 appIds)"]
  by (simp add: fetchPlayerCountsParallel_schedule_def peak_dispatches)

text \<open>
  \<^verbatim>\<open>fetch-steam-charts.js\<close>: a batch is dispatched only after the one before it has
  settled, so the lookups in flight never exceed the window.
\<close>

lemma chunks_from_lengths:
  "b \<in> set (chunks_from K i xs) \<Longrightarrow> length b \<le> K"
proof (induction K i xs rule: chunks_from.induct)
  case (1 K i xs)
  show ?case
  proof (cases "0 < K \<and> i < length xs")
    case False
    then have "chunks_from K i xs = []" by (subst chunks_from.simps) simp
    then show ?thesis using "1.prems" by simp
  next
    case True
    then have "chunks_from K i xs = take K (drop i xs) # chunks_from K (i + K) xs"
      by (simp add: chunks_from_unfold)
    then show ?thesis using "1.prems" "1.IH"[OF True] by auto
  qed
qed

lemma peak_batches:
  "\<forall>b\<in>set bs. length b \<le> K \<Longrightarrow>
   peak_outstanding (concat (map (\<lambda>batch. map Dispatch batch @ [AwaitAll batch]) bs)) [] \<le> K"
proof (induction bs)
  case Nil
  then show ?case by simp
next
  case (Cons b bs)
  have "filter (\<lambda>x. x \<notin> set b) (rev b) = []" by (simp add: filter_empty_conv)
  then show ?case using Cons by (simp add: peak_dispatches)
qed

lemma processGamesInBatches_peak:
  "peak_outstanding (processGamesInBatches_schedule appIds) [] \<le> charts_MAX_CONCURRENT_REQUESTS"
  unfolding processGamesInBatches_schedule_def
  by (rule peak_batches) (simp add: chunks_from_lengths)

text \<open>
  C2. The fetcher is to have at most \<open>K\<close> lookups outstanding at any time, window
  \<open>i + 1\<close> starting only after window \<open>i\<close> has settled. The schedule of
  \<^verbatim>\<open>fetchPlayerCountsParallel\<close> in \<^verbatim>\<open>part_000\<close> does not keep to it: for the
  \<open>501\<close> identifiers \<open>0, ..., 500\<close> more than \<open>MAX_CONCURRENT_REQUESTS = 500\<close> lookups are
  in flight at once, since all of them are dispatched before the first await.
\<close>

theorem fetchPlayerCountsParallel_exceeds_limit:
  "MAX_CONCURRENT_REQUESTS < peak_outstanding (fetchPlayerCountsParallel_schedule (many_ids 501)) []"
  using fetchPlayerCountsParallel_peak[of "many_ids 501"]
  by (simp add: many_ids_def MAX_CONCURRENT_REQUESTS_def)

subsection \<open>The aggregator\<close>

lemma joined_Some_iff:
  "(joined r g \<noteq> None) = (0 < finalPlayerCount r g)"
  by (auto simp: joined_def finalPlayerCount_def static_players_def Let_def split: option.splits)

lemma joined_fields:
  "joined r g = Some f \<Longrightarrow>
   fg_appId f = fo_appId r \<and> fg_currentPlayers f = finalPlayerCount r g \<and> fg_rank f = None"
  by (auto simp: joined_def Let_def split: if_splits)

lemma join_result_Some_iff:
  "(join_result games r \<noteq> None) =
     (case gameMap games (fo_appId r) of None \<Rightarrow> False | Some g \<Rightarrow> 0 < finalPlayerCount r g)"
  by (cases "gameMap games (fo_appId r)")
     (simp_all add: join_result_def joined_Some_iff del: not_None_eq)

lemma join_result_fields:
  "join_result games r = Some f \<Longrightarrow>
   \<exists>g. gameMap games (fo_appId r) = Some g \<and> fg_appId f = fo_appId r
       \<and> fg_currentPlayers f = finalPlayerCount r g \<and> 0 < fg_currentPlayers f"
proof -
  assume a: "join_result games r = Some f"
  then obtain g where g: "gameMap games (fo_appId r) = Some g" and j: "joined r g = Some f"
    by (auto simp: join_result_def split: option.splits)
  have "0 < finalPlayerCount r g" using j joined_Some_iff[of r g] by simp
  then show ?thesis using g joined_fields[OF j] by auto
qed

lemma aggregate_appIds:
  "map fg_appId (aggregate games results) =
     map fo_appId (filter (\<lambda>r. case gameMap games (fo_appId r) of None \<Rightarrow> False
                                | Some g \<Rightarrow> 0 < finalPlayerCount r g) results)"
proof (induction results)
  case Nil
  then show ?case by (simp add: aggregate_def map_filter_simps)
next
  case (Cons r rs)
  show ?case
  proof (cases "join_result games r")
    case None
    then have "\<not> (case gameMap games (fo_appId r) of None \<Rightarrow> False | Some g \<Rightarrow> 0 < finalPlayerCount r g)"
      using join_result_Some_iff[of games r] by simp
    then show ?thesis using Cons None by (simp add: aggregate_def map_filter_simps)
  next
    case (Some f)
    then have "case gameMap games (fo_appId r) of None \<Rightarrow> False | Some g \<Rightarrow> 0 < finalPlayerCount r g"
      using join_result_Some_iff[of games r] by simp
    then show ?thesis using Cons Some join_result_fields[OF Some]
      by (auto simp: aggregate_def map_filter_simps)
  qed
qed

lemma aggregate_members:
  "f \<in> set (aggregate games results) \<Longrightarrow>
   \<exists>r\<in>set results. join_result games r = Some f"
  by (auto simp: aggregate_def map_filter_def)

text \<open>
  C6. The aggregator keeps exactly the results that find their candidate by identifier
  and whose maximum of the fetched count and the candidate's static count (\<open>0\<close> when
  absent) is positive, in the order of the results; every record it builds carries that
  maximum as its current count, and the count is positive. A joined record whose
  maximum is \<open>0\<close> is dropped.
\<close>

theorem aggregator_max_and_positive:
  "map fg_appId (aggregate games results) =
     map fo_appId (filter (\<lambda>r. case gameMap games (fo_appId r) of None \<Rightarrow> False
                                | Some g \<Rightarrow> 0 < max (players r) (static_players g)) results)
   \<and> (\<forall>f\<in>set (aggregate games results).
        0 < fg_currentPlayers f
        \<and> (\<exists>r\<in>set results. \<exists>g. gameMap games (fo_appId r) = Some g
              \<and> fg_appId f = fo_appId r
              \<and> fg_currentPlayers f = max (players r) (static_players g)))"
proof
  show "map fg_appId (aggregate games results) =
     map fo_appId (filter (\<lambda>r. case gameMap games (fo_appId r) of None \<Rightarrow> False
                                | Some g \<Rightarrow> 0 < max (players r) (static_players g)) results)"
    using aggregate_appIds[of games results] unfolding finalPlayerCount_def .
next
  show "\<forall>f\<in>set (aggregate games results).
        0 < fg_currentPlayers f
        \<and> (\<exists>r\<in>set results. \<exists>g. gameMap games (fo_appId r) = Some g
              \<and> fg_appId f = fo_appId r
              \<and> fg_currentPlayers f = max (players r) (static_players g))"
  proof
    fix f assume "f \<in> set (aggregate games results)"
    then obtain r where r: "r \<in> set results" and j: "join_result games r = Some f"
      using aggregate_members by blast
    from join_result_fields[OF j] r show "0 < fg_currentPlayers f
        \<and> (\<exists>r\<in>set results. \<exists>g. gameMap games (fo_appId r) = Some g
              \<and> fg_appId f = fo_appId r
              \<and> fg_currentPlayers f = max (players r) (static_players g))"
      by (auto simp: finalPlayerCount_def)
  qed
qed

text \<open>The merge of the three sources of the scenario.\<close>

lemma scenario_merge:
  "allUniqueGames scenario_charts scenario_spy scenario_apps =
     [\<lparr>appId = 10, name = Some ''Foo'', rank = Some 1, currentPlayers = Some 500,
       peak24h = Some 0, owners = Some (Num 0), averagePlaytime = None, priority = 1,
       source = ''steam-charts''\<rparr>,
      \<lparr>appId = 20, name = Some ''Bar'', rank = None, currentPlayers = Some 5,
       peak24h = None, owners = Some (Num 0), averagePlaytime = Some (Num 0), priority = 2,
       source = ''steamspy''\<rparr>,
      \<lparr>appId = 30, name = Some ''Baz'', rank = None, currentPlayers = Some 0,
       peak24h = None, owners = None, averagePlaytime = None, priority = 3,
       source = ''steam-all-apps''\<rparr>]"
  by (simp add: allUniqueGames_def allGamesMap_def merge_lower_def scenario_charts_def
      scenario_spy_def scenario_apps_def set_chart_def merge_spy_def add_app_def
      js_truthy_str_def)

text \<open>
  The theorem at the merged scenario: \<open>10\<close> is kept with its static \<open>500\<close>, \<open>20\<close> with
  the fetched \<open>7\<close> over its static \<open>5\<close>, and \<open>30\<close> is dropped.
\<close>

theorem aggregator_max_and_positive_witness:
  "map fg_appId (aggregate (allUniqueGames scenario_charts scenario_spy scenario_apps) scenario_results) = [10, 20]
   \<and> map fg_currentPlayers (aggregate (allUniqueGames scenario_charts scenario_spy scenario_apps) scenario_results) = [500, 7]"
  using aggregator_max_and_positive[of "allUniqueGames scenario_charts scenario_spy scenario_apps" scenario_results]
  by (simp add: scenario_merge scenario_results_def aggregate_def map_filter_simps
      join_result_def gameMap_def joined_def finalPlayerCount_def static_players_def Let_def)

subsection \<open>The merge\<close>

lemma map_of_map_set:
  "map_of (map_set k v m) k' = (if k' = k then Some v else map_of m k')"
  by (induction m) auto

lemma map_of_set_chart:
  "map_of (set_chart g m) k =
     (if k = cg_appId g
      then Some \<lparr>appId = cg_appId g, name = None, rank = cg_rank g,
                 currentPlayers = Some (cg_currentPlayers g), peak24h = Some (cg_peak24h g),
                 owners = None, averagePlaytime = None, priority = 1, source = ''steam-charts''\<rparr>
      else map_of m k)"
  by (simp add: set_chart_def map_of_map_set)

lemma map_of_merge_spy_other:
  "k \<noteq> sg_appId g \<Longrightarrow> map_of (merge_spy g m) k = map_of m k"
  by (simp add: merge_spy_def map_of_map_set split: option.split)

lemma map_of_merge_spy_new:
  "map_of m (sg_appId g) = None \<Longrightarrow>
   map_of (merge_spy g m) (sg_appId g) =
     Some \<lparr>appId = sg_appId g, name = Some (sg_name g), rank = None,
           currentPlayers = Some (sg_currentPlayers g), peak24h = None,
           owners = Some (sg_owners g), averagePlaytime = Some (sg_averagePlaytime g),
           priority = 2, source = ''steamspy''\<rparr>"
  by (simp add: merge_spy_def map_of_map_set)

lemma map_of_merge_spy_seen:
  "map_of m (sg_appId g) = Some e \<Longrightarrow>
   map_of (merge_spy g m) (sg_appId g) =
     Some (e\<lparr>name := (if js_truthy_str (name e) then name e else Some (sg_name g)),
             owners := Some (sg_owners g)\<rparr>)"
  by (simp add: merge_spy_def map_of_map_set)

lemma map_of_add_app_seen:
  "map_of m k = Some e \<Longrightarrow> map_of (add_app a m) k = Some e"
  by (cases "map_of m (app_appid a)") (auto simp: add_app_def map_of_map_set)

lemma map_of_add_app_other:
  "k \<noteq> app_appid a \<Longrightarrow> map_of (add_app a m) k = map_of m k"
  by (simp add: add_app_def map_of_map_set split: option.split)

lemma map_of_add_app_new:
  "map_of m (app_appid a) = None \<Longrightarrow>
   map_of (add_app a m) (app_appid a) =
     Some \<lparr>appId = app_appid a, name = Some (app_name a), rank = None,
           currentPlayers = Some 0, peak24h = None, owners = None,
           averagePlaytime = None, priority = 3, source = ''steam-all-apps''\<rparr>"
  by (simp add: add_app_def map_of_map_set)

lemma merge_spy_step:
  assumes "map_of m k = Some e"
  shows "\<exists>e'. map_of (merge_spy g m) k = Some e' \<and> same_core e e' \<and> name_backfilled [g] k e e'"
proof (cases "k = sg_appId g")
  case False
  then show ?thesis using assms
    by (simp add: map_of_merge_spy_other same_core_def name_backfilled_def)
next
  case True
  then show ?thesis using assms map_of_merge_spy_seen[of m g e]
    by (simp add: same_core_def name_backfilled_def)
qed

lemma same_core_trans: "same_core a b \<Longrightarrow> same_core b c \<Longrightarrow> same_core a c"
  by (simp add: same_core_def)

lemma name_backfilled_trans:
  "name_backfilled [g] k a b \<Longrightarrow> name_backfilled ss k b c \<Longrightarrow> name_backfilled (g # ss) k a c"
  by (auto simp: name_backfilled_def split: if_splits)

lemma fold_merge_spy_keeps:
  "map_of m k = Some e \<Longrightarrow>
   \<exists>e'. map_of (fold merge_spy ss m) k = Some e' \<and> same_core e e' \<and> name_backfilled ss k e e'"
proof (induction ss arbitrary: m e)
  case Nil
  then show ?case by (simp add: same_core_def name_backfilled_def)
next
  case (Cons g ss)
  from merge_spy_step[OF Cons.prems, of g] obtain e1 where
    e1: "map_of (merge_spy g m) k = Some e1" "same_core e e1" "name_backfilled [g] k e e1"
    by blast
  from Cons.IH[OF e1(1)] obtain e' where
    e': "map_of (fold merge_spy ss (merge_spy g m)) k = Some e'" "same_core e1 e'"
        "name_backfilled ss k e1 e'"
    by blast
  show ?case using e' e1 same_core_trans name_backfilled_trans by fastforce
qed

lemma fold_add_app_keeps:
  "map_of m k = Some e \<Longrightarrow> map_of (fold add_app aa m) k = Some e"
  by (induction aa arbitrary: m) (simp_all add: map_of_add_app_seen)

lemma merge_lower_keeps:
  "map_of m k = Some e \<Longrightarrow>
   \<exists>e'. map_of (merge_lower m ss aa) k = Some e' \<and> same_core e e' \<and> name_backfilled ss k e e'"
  using fold_merge_spy_keeps[of m k e ss] fold_add_app_keeps[of "fold merge_spy ss m" k _ aa]
  by (auto simp: merge_lower_def)

text \<open>A pass over candidates with other identifiers leaves the entry of \<open>k\<close> alone.\<close>

lemma fold_set_chart_other:
  "k \<notin> cg_appId ` set sc \<Longrightarrow> map_of (fold set_chart sc m) k = map_of m k"
  by (induction sc arbitrary: m) (simp_all add: map_of_set_chart)

lemma fold_merge_spy_other:
  "k \<notin> sg_appId ` set ss \<Longrightarrow> map_of (fold merge_spy ss m) k = map_of m k"
  by (induction ss arbitrary: m) (simp_all add: map_of_merge_spy_other)

lemma fold_add_app_other:
  "k \<notin> app_appid ` set aa \<Longrightarrow> map_of (fold add_app aa m) k = map_of m k"
  by (induction aa arbitrary: m) (simp_all add: map_of_add_app_other)

text \<open>The pass that first sees an identifier stores it with the priority of its source.\<close>

lemma fold_set_chart_priority:
  "k \<in> cg_appId ` set sc \<Longrightarrow>
   \<exists>e. map_of (fold set_chart sc m) k = Some e \<and> priority e = 1"
proof (induction sc arbitrary: m)
  case Nil
  then show ?case by simp
next
  case (Cons g sc)
  show ?case
  proof (cases "k \<in> cg_appId ` set sc")
    case True
    then show ?thesis using Cons.IH by simp
  next
    case False
    then have "k = cg_appId g" using Cons.prems by simp
    then show ?thesis using False by (simp add: fold_set_chart_other map_of_set_chart)
  qed
qed

lemma fold_merge_spy_priority:
  "map_of m k = None \<Longrightarrow> k \<in> sg_appId ` set ss \<Longrightarrow>
   \<exists>e. map_of (fold merge_spy ss m) k = Some e \<and> priority e = 2"
proof (induction ss arbitrary: m)
  case Nil
  then show ?case by simp
next
  case (Cons g ss)
  show ?case
  proof (cases "k = sg_appId g")
    case True
    then have "\<exists>e. map_of (merge_spy g m) k = Some e \<and> priority e = 2"
      using Cons.prems(1) by (simp add: map_of_merge_spy_new)
    then obtain e where e: "map_of (merge_spy g m) k = Some e" "priority e = 2" by blast
    from fold_merge_spy_keeps[OF e(1), of ss] e(2) show ?thesis
      by (auto simp: same_core_def)
  next
    case False
    then have "map_of (merge_spy g m) k = None" "k \<in> sg_appId ` set ss"
      using Cons.prems by (simp_all add: map_of_merge_spy_other)
    then show ?thesis using Cons.IH by simp
  qed
qed

lemma fold_add_app_priority:
  "map_of m k = None \<Longrightarrow> k \<in> app_appid ` set aa \<Longrightarrow>
   \<exists>e. map_of (fold add_app aa m) k = Some e \<and> priority e = 3"
proof (induction aa arbitrary: m)
  case Nil
  then show ?case by simp
next
  case (Cons a aa)
  show ?case
  proof (cases "k = app_appid a")
    case True
    then have "\<exists>e. map_of (add_app a m) k = Some e \<and> priority e = 3"
      using Cons.prems(1) by (simp add: map_of_add_app_new)
    then show ?thesis using fold_add_app_keeps by fastforce
  next
    case False
    then have "map_of (add_app a m) k = None" "k \<in> app_appid ` set aa"
      using Cons.prems by (simp_all add: map_of_add_app_other)
    then show ?thesis using Cons.IH by simp
  qed
qed

text \<open>The priority stored for an identifier after the whole merge.\<close>

lemma stored_priority:
  "map_of (allGamesMap sc ss aa) k =  None \<longleftrightarrow>
     k \<notin> cg_appId ` set sc \<and> k \<notin> sg_appId ` set ss \<and> k \<notin> app_appid ` set aa"
  "k \<in> cg_appId ` set sc \<Longrightarrow> \<exists>e. map_of (allGamesMap sc ss aa) k = Some e \<and> priority e = 1"
  "k \<notin> cg_appId ` set sc \<Longrightarrow> k \<in> sg_appId ` set ss \<Longrightarrow>
     \<exists>e. map_of (allGamesMap sc ss aa) k = Some e \<and> priority e = 2"
  "k \<notin> cg_appId ` set sc \<Longrightarrow> k \<notin> sg_appId ` set ss \<Longrightarrow> k \<in> app_appid ` set aa \<Longrightarrow>
     \<exists>e. map_of (allGamesMap sc ss aa) k = Some e \<and> priority e = 3"
proof -
  let ?m1 = "fold set_chart sc []"
  let ?m2 = "fold merge_spy ss ?m1"
  show p1: "k \<in> cg_appId ` set sc \<Longrightarrow> \<exists>e. map_of (allGamesMap sc ss aa) k = Some e \<and> priority e = 1"
  proof -
    assume "k \<in> cg_appId ` set sc"
    from fold_set_chart_priority[OF this, of "[]"] obtain e where
      e: "map_of ?m1 k = Some e" "priority e = 1" by blast
    from merge_lower_keeps[OF e(1), of ss aa] e(2) show ?thesis
      by (auto simp: allGamesMap_def same_core_def)
  qed
  show p2: "k \<notin> cg_appId ` set sc \<Longrightarrow> k \<in> sg_appId ` set ss \<Longrightarrow>
     \<exists>e. map_of (allGamesMap sc ss aa) k = Some e \<and> priority e = 2"
  proof -
    assume a: "k \<notin> cg_appId ` set sc" "k \<in> sg_appId ` set ss"
    have "map_of ?m1 k = None" using a(1) by (simp add: fold_set_chart_other)
    from fold_merge_spy_priority[OF this a(2)] obtain e where
      e: "map_of ?m2 k = Some e" "priority e = 2" by blast
    then show ?thesis using fold_add_app_keeps[OF e(1), of aa]
      by (auto simp: allGamesMap_def merge_lower_def)
  qed
  show p3: "k \<notin> cg_appId ` set sc \<Longrightarrow> k \<notin> sg_appId ` set ss \<Longrightarrow> k \<in> app_appid ` set aa \<Longrightarrow>
     \<exists>e. map_of (allGamesMap sc ss aa) k = Some e \<and> priority e = 3"
  proof -
    assume a: "k \<notin> cg_appId ` set sc" "k \<notin> sg_appId ` set ss" "k \<in> app_appid ` set aa"
    have "map_of ?m2 k = None" using a(1,2) by (simp add: fold_set_chart_other fold_merge_spy_other)
    from fold_add_app_priority[OF this a(3)] show ?thesis
      by (simp add: allGamesMap_def merge_lower_def)
  qed
  show "map_of (allGamesMap sc ss aa) k =  None \<longleftrightarrow>
     k \<notin> cg_appId ` set sc \<and> k \<notin> sg_appId ` set ss \<and> k \<notin> app_appid ` set aa"
  proof
    assume n: "map_of (allGamesMap sc ss aa) k = None"
    show "k \<notin> cg_appId ` set sc \<and> k \<notin> sg_appId ` set ss \<and> k \<notin> app_appid ` set aa"
      using n p1 p2 p3 by fastforce
  next
    assume "k \<notin> cg_appId ` set sc \<and> k \<notin> sg_appId ` set ss \<and> k \<notin> app_appid ` set aa"
    then show "map_of (allGamesMap sc ss aa) k = None"
      by (simp add: allGamesMap_def merge_lower_def fold_set_chart_other fold_merge_spy_other
          fold_add_app_other)
  qed
qed


subsection \<open>The sampler\<close>

text \<open>
  What the sampler does as the specification describes it: a list within the target is
  returned unchanged, no candidate of priority at most 2 is dropped, and the output has
  exactly the target size when the kept candidates are fewer than the target and the
  pool can fill the remaining slots.
\<close>

lemma sample_games_small: "length games \<le> target \<Longrightarrow> sample_games target shuffle games = games"
  by (simp add: sample_games_def)

lemma sample_games_keeps_high:
  "g \<in> set games \<Longrightarrow> priority g \<le> 2 \<Longrightarrow> g \<in> set (sample_games target shuffle games)"
  by (simp add: sample_games_def Let_def)

lemma sample_games_exact:
  assumes "target < length games"
    and "length (filter (\<lambda>g. priority g \<le> 2) games) < target"
    and "target - length (filter (\<lambda>g. priority g \<le> 2) games)
           \<le> length (filter (\<lambda>g. priority g = 3) games)"
    and "mset (shuffle (filter (\<lambda>g. priority g = 3) games)) = mset (filter (\<lambda>g. priority g = 3) games)"
  shows "length (sample_games target shuffle games) = target"
proof -
  have "length (shuffle (filter (\<lambda>g. priority g = 3) games)) = length (filter (\<lambda>g. priority g = 3) games)"
    using assms(4) by (metis size_mset)
  then show ?thesis using assms(1,2,3)
    by (auto simp: sample_games_def Let_def randomSample_def js_slice0_def)
qed

text \<open>No identifier is selected twice, whatever rearrangement the shuffle produces.\<close>

lemma randomSample_subset:
  assumes "mset (shuffle pool) = mset pool"
  shows "set (randomSample shuffle pool n) \<subseteq> set pool"
proof -
  have "set (shuffle pool) = set pool" using assms by (rule mset_eq_setD)
  then show ?thesis by (auto simp: randomSample_def js_slice0_def dest: in_set_takeD)
qed

lemma randomSample_distinct:
  assumes "mset (shuffle pool) = mset pool" and "distinct (map appId pool)"
  shows "distinct (map appId (randomSample shuffle pool n))"
proof -
  have "mset (map appId (shuffle pool)) = mset (map appId pool)"
    using assms(1) by simp
  from mset_eq_imp_distinct_iff[OF this] have "distinct (map appId (shuffle pool))"
    using assms(2) by simp
  then show ?thesis using assms(2)
    by (simp add: randomSample_def js_slice0_def take_map[symmetric] distinct_take)
qed

lemma sample_games_distinct:
  assumes "distinct (map appId games)"
    and "mset (shuffle (filter (\<lambda>g. priority g = 3) games)) = mset (filter (\<lambda>g. priority g = 3) games)"
  shows "distinct (map appId (sample_games target shuffle games))"
proof (cases "target < length games")
  case False
  then show ?thesis using assms(1) by (simp add: sample_games_def)
next
  case True
  let ?kept = "filter (\<lambda>g. priority g \<le> 2) games"
  let ?pool = "filter (\<lambda>g. priority g = 3) games"
  let ?n = "int target - int (length ?kept)"
  have inj: "inj_on appId (set games)" using assms(1) by (simp add: distinct_map)
  have dk: "distinct (map appId ?kept)" using assms(1) by (simp add: distinct_map_filter)
  have dp: "distinct (map appId ?pool)" using assms(1) by (simp add: distinct_map_filter)
  have ds: "distinct (map appId (randomSample shuffle ?pool ?n))"
    using randomSample_distinct[of shuffle ?pool ?n] assms(2) dp by simp
  have sub: "set (randomSample shuffle ?pool ?n) \<subseteq> set ?pool"
    using randomSample_subset[of shuffle ?pool ?n] assms(2) by simp
  have "appId ` set ?kept \<inter> appId ` set (randomSample shuffle ?pool ?n) = {}"
  proof (rule ccontr)
    assume "appId ` set ?kept \<inter> appId ` set (randomSample shuffle ?pool ?n) \<noteq> {}"
    then obtain a b where ab: "a \<in> set ?kept" "b \<in> set (randomSample shuffle ?pool ?n)" "appId a = appId b"
      by auto
    then have "b \<in> set ?pool" using sub by auto
    then have "a \<in> set games" "b \<in> set games" "priority a \<le> 2" "priority b = 3"
      using ab(1) by auto
    then show False using inj_onD[OF inj ab(3)] by auto
  qed
  then show ?thesis using True dk ds
    by (simp add: sample_games_def Let_def)
qed

text \<open>
  The crowded list: more candidates of priority 1 than the target, and two of priority
  3. The remaining slots are \<open>-1\<close>, and \<^verbatim>\<open>slice(0, -1)\<close> of the two-element pool
  is its first element.
\<close>

lemma crowded_high:
  "filter (\<lambda>g. priority g \<le> 2) (crowded n) = map (candidate 1) (many_ids n)"
proof -
  have "filter (\<lambda>g. priority g \<le> 2) (map (candidate 1) xs) = map (candidate 1) xs" for xs
    by (induction xs) (simp_all add: candidate_def)
  then show ?thesis by (simp add: crowded_def candidate_def)
qed

lemma crowded_low:
  "filter (\<lambda>g. priority g = 3) (crowded n) = [candidate 3 (int n), candidate 3 (int n + 1)]"
proof -
  have "filter (\<lambda>g. priority g = 3) (map (candidate 1) xs) = []" for xs
    by (induction xs) (simp_all add: candidate_def)
  then show ?thesis by (simp add: crowded_def candidate_def)
qed

lemma sample_crowded:
  "sample_games n id (crowded (Suc n)) =
     map (candidate 1) (many_ids (Suc n)) @ [candidate 3 (int (Suc n))]"
proof -
  have "n < length (crowded (Suc n))" by (simp add: crowded_def many_ids_def)
  then show ?thesis
    by (simp add: sample_games_def Let_def crowded_high crowded_low randomSample_def
        js_slice0_def many_ids_def)
qed

text \<open>
  C1. When the candidates of priority at most 2 number at least the target, the output
  is to contain no priority-3 candidate. For \<open>TARGET_GAMES + 1\<close> candidates of priority
  1 followed by two of priority 3, and the rearrangement that leaves the pool as it
  is, the sampler of \<^verbatim>\<open>part_000\<close> returns one priority-3 candidate along with the
  kept ones.
\<close>

theorem sampler_draws_from_pool_when_kept_exceeds_target:
  "TARGET_GAMES \<le> length (filter (\<lambda>g. priority g \<le> 2) (crowded (Suc TARGET_GAMES)))
   \<and> filter (\<lambda>g. priority g = 3) (sample_games TARGET_GAMES id (crowded (Suc TARGET_GAMES))) =
       [candidate 3 (int (Suc TARGET_GAMES))]"
proof -
  have "filter (\<lambda>g. priority g = 3) (map (candidate 1) xs) = []" for xs
    by (induction xs) (simp_all add: candidate_def)
  then show ?thesis
    by (simp add: sample_crowded crowded_high many_ids_def candidate_def)
qed

subsection \<open>Sorting and ranking\<close>

lemma assign_ranks_ranks: "map fg_rank (assign_ranks gs) = map Some [1..<Suc (length gs)]"
proof -
  have "map fg_rank (assign_ranks gs) = map (\<lambda>i. Some (Suc i)) (map fst (enumerate 0 gs))"
    by (simp add: assign_ranks_def case_prod_beta del: map_fst_enumerate)
  also have "\<dots> = map Some (map Suc [0..<length gs])" by simp
  finally show ?thesis by (simp add: map_Suc_upt del: upt_Suc)
qed

lemma assign_ranks_unranked: "map unranked (assign_ranks gs) = map unranked gs"
proof -
  have "map unranked (assign_ranks gs) = map unranked (map snd (enumerate 0 gs))"
    by (simp add: assign_ranks_def unranked_def case_prod_beta del: map_snd_enumerate)
  then show ?thesis by simp
qed

lemma assign_ranks_players:
  "map fg_currentPlayers (assign_ranks gs) = map fg_currentPlayers gs"
proof -
  have "map fg_currentPlayers (assign_ranks gs) = map fg_currentPlayers (map snd (enumerate 0 gs))"
    by (simp add: assign_ranks_def case_prod_beta del: map_snd_enumerate)
  then show ?thesis by simp
qed

lemma ranked_non_increasing:
  "sorted_wrt (\<lambda>a b. fg_currentPlayers b \<le> fg_currentPlayers a) (assign_ranks (sort_by_players gs))"
proof -
  have "map (\<lambda>g. - fg_currentPlayers g) (assign_ranks (sort_by_players gs)) =
        map (\<lambda>g. - fg_currentPlayers g) (sort_by_players gs)"
    using arg_cong[OF assign_ranks_players[of "sort_by_players gs"], of "map uminus"]
    by (simp add: o_def)
  then have "sorted (map (\<lambda>g. - fg_currentPlayers g) (assign_ranks (sort_by_players gs)))"
    by (simp add: sort_by_players_def)
  then show ?thesis by (simp add: sorted_map)
qed

lemma ranked_stable:
  "filter (\<lambda>g. fg_currentPlayers g = k) (map unranked (assign_ranks (sort_by_players gs))) =
   filter (\<lambda>g. fg_currentPlayers g = k) (map unranked gs)"
proof -
  have "filter (\<lambda>g. fg_currentPlayers g = k) (sort_by_players gs) =
        filter (\<lambda>g. fg_currentPlayers g = k) gs"
    using sort_key_stable[of "\<lambda>g. - fg_currentPlayers g" "- k" gs]
    by (simp add: sort_by_players_def)
  then show ?thesis
    by (simp add: assign_ranks_unranked filter_map o_def unranked_def)
qed

lemma spy_ranks: "map sr_rank (spy_assign_ranks gs) = map Some [1..<Suc (length gs)]"
proof -
  have "map sr_rank (spy_assign_ranks gs) = map (\<lambda>i. Some (Suc i)) (map fst (enumerate 0 gs))"
    by (simp add: spy_assign_ranks_def case_prod_beta del: map_fst_enumerate)
  also have "\<dots> = map Some (map Suc [0..<length gs])" by simp
  finally show ?thesis by (simp add: map_Suc_upt del: upt_Suc)
qed

lemma spy_assign_ranks_unranked: "map spy_unranked (spy_assign_ranks gs) = map spy_unranked gs"
proof -
  have "map spy_unranked (spy_assign_ranks gs) = map spy_unranked (map snd (enumerate 0 gs))"
    by (simp add: spy_assign_ranks_def spy_unranked_def case_prod_beta del: map_snd_enumerate)
  then show ?thesis by simp
qed

lemma spy_assign_ranks_players:
  "map sr_currentPlayers (spy_assign_ranks gs) = map sr_currentPlayers gs"
proof -
  have "map sr_currentPlayers (spy_assign_ranks gs) = map sr_currentPlayers (map snd (enumerate 0 gs))"
    by (simp add: spy_assign_ranks_def case_prod_beta del: map_snd_enumerate)
  then show ?thesis by simp
qed

lemma spy_non_increasing:
  "sorted_wrt (\<lambda>a b. sr_currentPlayers b \<le> sr_currentPlayers a) (spy_assign_ranks (spy_sort gs))"
proof -
  have "map (\<lambda>g. - sr_currentPlayers g) (spy_assign_ranks (spy_sort gs)) =
        map (\<lambda>g. - sr_currentPlayers g) (spy_sort gs)"
    using arg_cong[OF spy_assign_ranks_players[of "spy_sort gs"], of "map uminus"]
    by (simp add: o_def)
  then have "sorted (map (\<lambda>g. - sr_currentPlayers g) (spy_assign_ranks (spy_sort gs)))"
    by (simp add: spy_sort_def)
  then show ?thesis by (simp add: sorted_map)
qed

lemma spy_stable:
  "filter (\<lambda>g. sr_currentPlayers g = k) (map spy_unranked (spy_assign_ranks (spy_sort gs))) =
   filter (\<lambda>g. sr_currentPlayers g = k) (map spy_unranked gs)"
proof -
  have "filter (\<lambda>g. sr_currentPlayers g = k) (spy_sort gs) =
        filter (\<lambda>g. sr_currentPlayers g = k) gs"
    using sort_key_stable[of "\<lambda>g. - sr_currentPlayers g" "- k" gs]
    by (simp add: spy_sort_def)
  then show ?thesis
    by (simp add: spy_assign_ranks_unranked filter_map o_def spy_unranked_def)
qed

text \<open>
  The state after the two pages: \<^verbatim>\<open>Object.values\<close> lists the games by ascending
  identifier, the stable sort leaves the tied games in that order, and the ranks follow.
\<close>

lemma object_values_two_pages:
  assumes "2 * h < 4294967295"
  shows "object_values (sf_games (two_pages h)) = map (\<lambda>i. snd (spy_entry i)) [1..<Suc (2 * h)]"
proof -
  have idx: "filter (\<lambda>entry. is_array_index (fst entry)) (sf_games (two_pages h)) =
             sf_games (two_pages h)"
    using assms by (auto simp: two_pages_def is_array_index_def spy_entry_def filter_id_conv
        simp del: upt_Suc)
  have rest: "filter (\<lambda>entry. \<not> is_array_index (fst entry)) (sf_games (two_pages h)) = []"
    using assms by (auto simp: two_pages_def is_array_index_def spy_entry_def filter_empty_conv
        simp del: upt_Suc)
  have parts: "[1..<Suc (2 * h)] = [1..<Suc h] @ [Suc h..<Suc (2 * h)]"
    using upt_add_eq_append[of 1 "Suc h" h] by (simp add: mult_2 del: upt_Suc)
  have "sort_key fst (map spy_entry ([Suc h..<Suc (2 * h)] @ [1..<Suc h])) =
        map spy_entry [1..<Suc (2 * h)]"
  proof (rule sort_key_inj_key_eq)
    show "mset (map spy_entry ([Suc h..<Suc (2 * h)] @ [1..<Suc h])) =
          mset (map spy_entry [1..<Suc (2 * h)])"
      by (subst parts) (simp only: map_append mset_append add.commute)
    show "inj_on fst (set (map spy_entry ([Suc h..<Suc (2 * h)] @ [1..<Suc h])))"
      by (auto simp: inj_on_def spy_entry_def)
    have "map fst (map spy_entry [1..<Suc (2 * h)]) = [1..<Suc (2 * h)]"
      by (simp add: spy_entry_def o_def del: upt_Suc)
    then show "sorted (map fst (map spy_entry [1..<Suc (2 * h)]))"
      by (simp del: upt_Suc map_map)
  qed
  then have "sort_key fst (sf_games (two_pages h)) = map spy_entry [1..<Suc (2 * h)]"
    by (simp add: two_pages_def del: upt_Suc)
  then show ?thesis by (simp add: object_values_def idx rest o_def del: upt_Suc)
qed

lemma spy_sort_all_tied:
  "spy_sort (map (\<lambda>i. snd (spy_entry i)) xs) = map (\<lambda>i. snd (spy_entry i)) xs"
  unfolding spy_sort_def
  by (rule sort_key_id_if_sorted) (simp add: spy_entry_def o_def map_replicate_const)

lemma sortedGames_two_pages:
  "2 * h < 4294967295 \<Longrightarrow>
   sortedGames (two_pages h) =
     spy_assign_ranks (map (\<lambda>i. snd (spy_entry i)) [1..<Suc (2 * h)])"
  by (simp add: sortedGames_def object_values_two_pages spy_sort_all_tied del: upt_Suc)

lemma spy_assign_ranks_nth:
  "i < length gs \<Longrightarrow> spy_assign_ranks gs ! i = (gs ! i)\<lparr>sr_rank := Some (Suc i)\<rparr>"
  by (simp add: spy_assign_ranks_def nth_enumerate_eq)

lemma sortedGames_two_pages_nth:
  "2 * h < 4294967295 \<Longrightarrow> i < 2 * h \<Longrightarrow> sortedGames (two_pages h) ! i = (snd (spy_entry (Suc i)))\<lparr>sr_rank := Some (Suc i)\<rparr>"
  by (simp add: sortedGames_two_pages spy_assign_ranks_nth del: upt_Suc)

lemma length_object_values: "length (object_values obj) = length obj"
  by (simp add: object_values_def sum_length_filter_compl)

lemma length_sortedGames: "length (sortedGames st) = length (sf_games st)"
  by (simp add: sortedGames_def spy_assign_ranks_def spy_sort_def length_object_values)

lemma fetchAllGames_result_eq:
  "fetchAllGames_result st =
     (if length (sf_games st) < MIN_GAMES_REQUIRED
      then Inl (Error (spy_below_minimum_message (length (sf_games st))))
      else Inr \<lparr>sd_metadata = \<lparr>sm_totalGames = length (sf_games st),
                                sm_totalPlayers = sf_totalPlayers st,
                                sm_totalScanned = sf_totalGames st\<rparr>,
                sd_ranking = sortedGames st\<rparr>)"
  by (simp add: fetchAllGames_result_def Let_def length_sortedGames)

lemma length_two_pages: "length (sf_games (two_pages h)) = 2 * h"
  by (simp add: two_pages_def del: upt_Suc)

lemma two_pages_first: "0 < h \<Longrightarrow> sf_games (two_pages h) ! 0 = spy_entry (Suc h)"
  by (simp add: two_pages_def nth_append del: upt_Suc)

lemma two_pages_second: "0 < h \<Longrightarrow> sf_games (two_pages h) ! h = spy_entry 1"
  by (simp add: two_pages_def nth_append del: upt_Suc)

lemma two_pages_result:
  "MIN_GAMES_REQUIRED \<le> 2 * h \<Longrightarrow>
   fetchAllGames_result (two_pages h) =
      Inr \<lparr>sd_metadata = \<lparr>sm_totalGames = 2 * h,
                            sm_totalPlayers = sf_totalPlayers (two_pages h),
                            sm_totalScanned = sf_totalGames (two_pages h)\<rparr>,
            sd_ranking = sortedGames (two_pages h)\<rparr>"
  by (simp add: fetchAllGames_result_eq length_two_pages)

subsection \<open>The pipeline\<close>

lemma fetchAllSteamData_result:
  "fst (fetchAllSteamData shuffle net apps charts spy st) =
     (if length (gamesWithPlayers shuffle net apps charts spy st) < MIN_GAMES_REQUIRED
      then Inl (Error (below_minimum_message (length (gamesWithPlayers shuffle net apps charts spy st))))
      else Inr \<lparr>md = \<lparr>totalGames = length (remdups (map fg_appId
                                (assign_ranks (sort_by_players (gamesWithPlayers shuffle net apps charts spy st))))),
                       totalPlayers = sum_list (map fg_currentPlayers (gamesWithPlayers shuffle net apps charts spy st)),
                       totalProcessed = length (gamesToProcess shuffle charts spy apps),
                       md_failedRequests = failedRequests (snd (fetchPlayerCountsParallel net
                           (map appId (gamesToProcess shuffle charts spy apps)) st))\<rparr>,
                games_by_id = map_of (rev (map (\<lambda>g. (fg_appId g, g))
                                (assign_ranks (sort_by_players (gamesWithPlayers shuffle net apps charts spy st))))),
                ranking = assign_ranks (sort_by_players (gamesWithPlayers shuffle net apps charts spy st))\<rparr>)"
proof -
  have "length (fst (fetchPlayerCountsParallel net ids st)) = length ids" for ids
    using arg_cong[OF fetch_each_appIds[of net ids st], of length]
    by (simp add: fetchPlayerCountsParallel_eq)
  then show ?thesis
    by (simp add: fetchAllSteamData_def gamesWithPlayers_def Let_def case_prod_beta)
qed

lemma assign_ranks_appIds: "map fg_appId (assign_ranks gs) = map fg_appId gs"
proof -
  have "map fg_appId (assign_ranks gs) = map fg_appId (map snd (enumerate 0 gs))"
    by (simp add: assign_ranks_def case_prod_beta del: map_snd_enumerate)
  then show ?thesis by simp
qed

lemma totalGames_count:
  "length (remdups (map fg_appId (assign_ranks (sort_by_players gs)))) =
     card (fg_appId ` set gs)"
  by (simp add: assign_ranks_appIds length_remdups_card_conv sort_by_players_def)

lemma main_run_result:
  "main_run shuffle net apps charts spy st =
     (if card (fg_appId ` set (gamesWithPlayers shuffle net apps charts spy st)) < MIN_GAMES_REQUIRED
      then (1, None)
      else (0, Some (projr (fst (fetchAllSteamData shuffle net apps charts spy st)))))"
proof -
  have "card (fg_appId ` set gs) \<le> length gs" for gs :: "final_game list"
    by (metis card_image_le card_length le_trans List.finite_set)
  from this[of "gamesWithPlayers shuffle net apps charts spy st"]
  have "length (gamesWithPlayers shuffle net apps charts spy st) < MIN_GAMES_REQUIRED \<Longrightarrow>
        card (fg_appId ` set (gamesWithPlayers shuffle net apps charts spy st)) < MIN_GAMES_REQUIRED"
    by simp
  then show ?thesis
    using totalGames_count[of "gamesWithPlayers shuffle net apps charts spy st"]
    by (auto simp: main_run_def fetchAllSteamData_result)
qed

text \<open>The scenario run against the endpoint that never answers.\<close>

lemma fetch_each_unreachable:
  "fst (fetch_each unreachable ids st) = map (\<lambda>a. \<lparr>fo_appId = a, players = 0\<rparr>) ids"
proof (induction ids arbitrary: st)
  case Nil
  then show ?case by simp
next
  case (Cons a ids)
  have "fst (fetch_one unreachable a st) = \<lparr>fo_appId = a, players = 0\<rparr>"
    by (rule fetch_one_exhausted) (simp add: unreachable_fails)
  then show ?case using Cons by (simp add: case_prod_beta)
qed

lemma scenario_gamesWithPlayers:
  "map (\<lambda>g. (fg_appId g, fg_currentPlayers g))
     (gamesWithPlayers id unreachable scenario_apps scenario_charts scenario_spy fresh_fetcher) =
   [(10, 500), (20, 5)]"
  by (simp add: gamesWithPlayers_def gamesToProcess_def scenario_merge sample_games_def
      TARGET_GAMES_def fetchPlayerCountsParallel_eq fetch_each_unreachable aggregate_def
      map_filter_simps join_result_def gameMap_def joined_def finalPlayerCount_def
      static_players_def Let_def)

lemma decimal_examples:
  "decimal 2 = ''2''" "decimal 42 = ''42''" "decimal 10000 = ''10000''"
  by (simp_all add: decimal.simps digit_char_def)

text \<open>
  C9. A run whose count of surviving records is below \<open>MIN_GAMES_REQUIRED\<close> ends in
  one error whose message carries the observed count and the minimum, and \<^verbatim>\<open>main\<close>
  exits with status \<open>1\<close> without a dataset to save. No other path of the pipeline ends
  in an error: whatever the sources and the remote endpoint answer,
  \<^verbatim>\<open>fetchAllSteamData\<close> fails exactly when the count is below the minimum, and
  \<^verbatim>\<open>main\<close> saves the dataset exactly when the number of games is not. The same holds
  for the validation of \<^verbatim>\<open>fetch-steamspy-data.js\<close>.
\<close>

theorem below_minimum_is_fatal:
  "(length (gamesWithPlayers shuffle net apps charts spy st) < MIN_GAMES_REQUIRED \<longrightarrow>
      fst (fetchAllSteamData shuffle net apps charts spy st) =
        Inl (Error (below_minimum_message (length (gamesWithPlayers shuffle net apps charts spy st))))
      \<and> main_run shuffle net apps charts spy st = (1, None))
   \<and> isl (fst (fetchAllSteamData shuffle net apps charts spy st)) =
       (length (gamesWithPlayers shuffle net apps charts spy st) < MIN_GAMES_REQUIRED)
   \<and> main_run shuffle net apps charts spy st =
       (if card (fg_appId ` set (gamesWithPlayers shuffle net apps charts spy st)) < MIN_GAMES_REQUIRED
        then (1, None)
        else (0, Some (projr (fst (fetchAllSteamData shuffle net apps charts spy st)))))
   \<and> (length (sf_games sst) < MIN_GAMES_REQUIRED \<longrightarrow>
        fetchAllGames_result sst = Inl (Error (spy_below_minimum_message (length (sf_games sst)))))
   \<and> isl (fetchAllGames_result sst) = (length (sf_games sst) < MIN_GAMES_REQUIRED)
   \<and> below_minimum_message n =
       [CHR 0xE2, CHR 0x80, CHR 0x9A, CHR 0xC3, CHR 0xB9, CHR 0xC3, CHR 0xA5]
       @ '' FAILED: Only '' @ decimal n
       @ '' games with player data found. Minimum required: '' @ decimal MIN_GAMES_REQUIRED
   \<and> spy_below_minimum_message n =
       [CHR 0xE2, CHR 0x9D, CHR 0x8C] @ '' FAILED: Only '' @ decimal n
       @ '' active games found. Minimum required: '' @ decimal MIN_GAMES_REQUIRED"
proof -
  have m: "main_run shuffle net apps charts spy st =
       (if card (fg_appId ` set (gamesWithPlayers shuffle net apps charts spy st)) < MIN_GAMES_REQUIRED
        then (1, None)
        else (0, Some (projr (fst (fetchAllSteamData shuffle net apps charts spy st)))))"
    by (rule main_run_result)
  have "length (gamesWithPlayers shuffle net apps charts spy st) < MIN_GAMES_REQUIRED \<Longrightarrow>
        main_run shuffle net apps charts spy st = (1, None)"
    by (simp add: main_run_def fetchAllSteamData_result)
  then show ?thesis using m
    by (simp add: fetchAllSteamData_result fetchAllGames_result_eq below_minimum_message_def
        spy_below_minimum_message_def)
qed

text \<open>
  The theorem at the three sources of the scenario with an endpoint that never answers:
  every lookup fails, two records survive on their static counts, and the run ends in
  the error for \<open>2\<close> games. For the SteamSpy script, a state with \<open>42\<close> games.
\<close>

theorem below_minimum_is_fatal_witness:
  "length (gamesWithPlayers id unreachable scenario_apps scenario_charts scenario_spy fresh_fetcher) = 2
   \<and> 2 < MIN_GAMES_REQUIRED
   \<and> fst (fetchAllSteamData id unreachable scenario_apps scenario_charts scenario_spy fresh_fetcher) =
       Inl (Error ([CHR 0xE2, CHR 0x80, CHR 0x9A, CHR 0xC3, CHR 0xB9, CHR 0xC3, CHR 0xA5]
         @ '' FAILED: Only 2 games with player data found. Minimum required: 10000''))
   \<and> main_run id unreachable scenario_apps scenario_charts scenario_spy fresh_fetcher = (1, None)
   \<and> length (sf_games (two_pages 21)) = 42
   \<and> fetchAllGames_result (two_pages 21) =
       Inl (Error ([CHR 0xE2, CHR 0x9D, CHR 0x8C]
         @ '' FAILED: Only 42 active games found. Minimum required: 10000''))"
proof -
  have n: "length (gamesWithPlayers id unreachable scenario_apps scenario_charts scenario_spy fresh_fetcher) = 2"
    using arg_cong[OF scenario_gamesWithPlayers, of length] by simp
  show ?thesis
    using below_minimum_is_fatal[of id unreachable scenario_apps scenario_charts scenario_spy
        fresh_fetcher "two_pages 21" 0]
    by (simp add: n length_two_pages MIN_GAMES_REQUIRED_def below_minimum_message_def
        spy_below_minimum_message_def decimal_examples)
qed

subsection \<open>The merge of the older script\<close>

text \<open>
  The merge of \<^verbatim>\<open>fetch-steam-charts.js\<close>: a SteamSpy pass changes nothing of a stored
  record but an empty name.
\<close>

lemma charts_merge_spy_step:
  assumes "map_of m k = Some e"
  shows "\<exists>e'. map_of (charts_merge_spy g m) k = Some e'
           \<and> e' = e\<lparr>cc_name := cc_name e'\<rparr>
           \<and> (js_truthy_str (cc_name e) \<longrightarrow> e' = e)"
proof (cases "k = sg_appId g")
  case False
  then show ?thesis using assms
    by (simp add: charts_merge_spy_def map_of_map_set split: option.split)
next
  case True
  then show ?thesis using assms
    by (simp add: charts_merge_spy_def map_of_map_set)
qed

lemma charts_merge_keeps:
  "map_of m k = Some e \<Longrightarrow>
   \<exists>e'. map_of (fold charts_merge_spy ss m) k = Some e'
      \<and> e' = e\<lparr>cc_name := cc_name e'\<rparr>
      \<and> (js_truthy_str (cc_name e) \<longrightarrow> e' = e)"
proof (induction ss arbitrary: m e)
  case Nil
  then show ?case by simp
next
  case (Cons g ss)
  from charts_merge_spy_step[OF Cons.prems, of g] obtain e1 where
    e1: "map_of (charts_merge_spy g m) k = Some e1" "e1 = e\<lparr>cc_name := cc_name e1\<rparr>"
        "js_truthy_str (cc_name e) \<longrightarrow> e1 = e"
    by blast
  from Cons.IH[OF e1(1)] obtain e' where
    e': "map_of (fold charts_merge_spy ss (charts_merge_spy g m)) k = Some e'"
        "e' = e1\<lparr>cc_name := cc_name e'\<rparr>" "js_truthy_str (cc_name e1) \<longrightarrow> e' = e1"
    by blast
  have "e' = e\<lparr>cc_name := cc_name e'\<rparr>"
    using e1(2) e'(2) by (metis charts_candidate.update_convs(2) charts_candidate.surjective)
  then show ?case using e'(1,3) e1(3) by auto
qed

subsection \<open>The content of the merged records\<close>

lemma lower_pass_effect_refl: "lower_pass_effect ss k e e"
  by (simp add: lower_pass_effect_def)

lemma lower_pass_effect_trans:
  assumes "lower_pass_effect [g] k a b" and "lower_pass_effect ss k b c"
  shows "lower_pass_effect (g # ss) k a c"
proof -
  have ab: "b = a\<lparr>name := name b, owners := owners b\<rparr>"
    and bc: "c = b\<lparr>name := name c, owners := owners c\<rparr>"
    using assms by (simp_all add: lower_pass_effect_def)
  have "c = a\<lparr>name := name b, owners := owners b\<rparr>\<lparr>name := name c, owners := owners c\<rparr>"
    using ab bc by simp
  then have core: "c = a\<lparr>name := name c, owners := owners c\<rparr>" by simp
  have nm: "if js_truthy_str (name a) then name c = name a
      else name c = name a \<or> name c \<in> (\<lambda>g. Some (sg_name g)) ` {h \<in> set (g # ss). sg_appId h = k}"
    using assms by (auto simp: lower_pass_effect_def split: if_splits)
  have ow: "owners c = owners a
      \<or> owners c \<in> (\<lambda>g. Some (sg_owners g)) ` {h \<in> set (g # ss). sg_appId h = k}"
    using assms by (auto simp: lower_pass_effect_def)
  show ?thesis unfolding lower_pass_effect_def using core nm ow by blast
qed

lemma merge_spy_effect:
  assumes "map_of m k = Some e"
  shows "\<exists>e'. map_of (merge_spy g m) k = Some e' \<and> lower_pass_effect [g] k e e'"
proof (cases "k = sg_appId g")
  case False
  then show ?thesis using assms
    by (simp add: map_of_merge_spy_other lower_pass_effect_refl)
next
  case True
  then show ?thesis using assms map_of_merge_spy_seen[of m g e]
    by (simp add: lower_pass_effect_def)
qed

lemma fold_merge_spy_effect:
  "map_of m k = Some e \<Longrightarrow>
   \<exists>e'. map_of (fold merge_spy ss m) k = Some e' \<and> lower_pass_effect ss k e e'"
proof (induction ss arbitrary: m e)
  case Nil
  then show ?case by (simp add: lower_pass_effect_refl)
next
  case (Cons g ss)
  from merge_spy_effect[OF Cons.prems, of g] obtain e1 where
    e1: "map_of (merge_spy g m) k = Some e1" "lower_pass_effect [g] k e e1"
    by blast
  from Cons.IH[OF e1(1)] obtain e' where
    e': "map_of (fold merge_spy ss (merge_spy g m)) k = Some e'" "lower_pass_effect ss k e1 e'"
    by blast
  show ?case using e'(1) lower_pass_effect_trans[OF e1(2) e'(2)] by simp
qed

lemma merge_lower_effect:
  assumes "map_of m k = Some e"
  shows "\<exists>e'. map_of (merge_lower m ss aa) k = Some e' \<and> lower_pass_effect ss k e e'"
proof -
  from fold_merge_spy_effect[OF assms, of ss] obtain e' where
    e': "map_of (fold merge_spy ss m) k = Some e'" "lower_pass_effect ss k e e'"
    by blast
  from fold_add_app_keeps[OF e'(1), of aa] e'(2) show ?thesis
    by (auto simp: merge_lower_def)
qed

lemma merge_lower_untouched:
  assumes "map_of m k = Some e" and "k \<notin> sg_appId ` set ss"
  shows "map_of (merge_lower m ss aa) k = Some e"
proof -
  have "map_of (fold merge_spy ss m) k = Some e"
    using assms by (simp add: fold_merge_spy_other)
  then show ?thesis by (simp add: merge_lower_def fold_add_app_keeps)
qed

text \<open>The record a pass stores for the identifier it is the first to see.\<close>

lemma fold_set_chart_last:
  assumes "sc = pre @ g # post" and "cg_appId g = k" and "k \<notin> cg_appId ` set post"
  shows "map_of (fold set_chart sc m) k = Some (entry_of_chart g)"
  using assms by (simp add: fold_set_chart_other map_of_set_chart entry_of_chart_def)

lemma fold_merge_spy_first:
  assumes "ss = pre @ g # post" and "sg_appId g = k" and "k \<notin> sg_appId ` set pre"
    and "map_of m k = None"
  shows "\<exists>e'. map_of (fold merge_spy ss m) k = Some e' \<and> lower_pass_effect post k (entry_of_spy g) e'"
proof -
  have "map_of (fold merge_spy pre m) k = None"
    using assms(3,4) by (simp add: fold_merge_spy_other)
  then have "map_of (merge_spy g (fold merge_spy pre m)) k = Some (entry_of_spy g)"
    using assms(2) map_of_merge_spy_new[of "fold merge_spy pre m" g]
    by (simp add: entry_of_spy_def)
  from fold_merge_spy_effect[OF this, of post] show ?thesis using assms(1) by simp
qed

lemma fold_add_app_first:
  assumes "aa = pre @ a # post" and "app_appid a = k" and "k \<notin> app_appid ` set pre"
    and "map_of m k = None"
  shows "map_of (fold add_app aa m) k = Some (entry_of_app a)"
proof -
  have "map_of (fold add_app pre m) k = None"
    using assms(3,4) by (simp add: fold_add_app_other)
  then have "map_of (add_app a (fold add_app pre m)) k = Some (entry_of_app a)"
    using assms(2) map_of_add_app_new[of "fold add_app pre m" a]
    by (simp add: entry_of_app_def)
  then show ?thesis using assms(1) by (simp add: fold_add_app_keeps)
qed

lemma chart_content:
  assumes "sc = pre @ g # post" and "cg_appId g = k" and "k \<notin> cg_appId ` set post"
  shows "\<exists>e'. map_of (allGamesMap sc ss aa) k = Some e'
           \<and> lower_pass_effect ss k (entry_of_chart g) e'
           \<and> (k \<notin> sg_appId ` set ss \<longrightarrow> e' = entry_of_chart g)"
proof -
  have m1: "map_of (fold set_chart sc []) k = Some (entry_of_chart g)"
    by (rule fold_set_chart_last[OF assms])
  from merge_lower_effect[OF m1, of ss aa] obtain e' where
    e': "map_of (merge_lower (fold set_chart sc []) ss aa) k = Some e'"
        "lower_pass_effect ss k (entry_of_chart g) e'"
    by blast
  show ?thesis using e' merge_lower_untouched[OF m1, of ss aa]
    by (auto simp: allGamesMap_def)
qed

lemma spy_content:
  assumes "k \<notin> cg_appId ` set sc"
    and "ss = pre @ g # post" and "sg_appId g = k" and "k \<notin> sg_appId ` set pre"
  shows "\<exists>e'. map_of (allGamesMap sc ss aa) k = Some e'
           \<and> lower_pass_effect post k (entry_of_spy g) e'
           \<and> (k \<notin> sg_appId ` set post \<longrightarrow> e' = entry_of_spy g)"
proof -
  have m1: "map_of (fold set_chart sc []) k = None"
    using assms(1) by (simp add: fold_set_chart_other)
  from fold_merge_spy_first[OF assms(2,3,4) m1] obtain e' where
    e': "map_of (fold merge_spy ss (fold set_chart sc [])) k = Some e'"
        "lower_pass_effect post k (entry_of_spy g) e'"
    by blast
  have "k \<notin> sg_appId ` set post \<Longrightarrow> e' = entry_of_spy g"
  proof -
    assume np: "k \<notin> sg_appId ` set post"
    have "map_of (fold merge_spy pre (fold set_chart sc [])) k = None"
      using assms(4) m1 by (simp add: fold_merge_spy_other)
    then have "map_of (merge_spy g (fold merge_spy pre (fold set_chart sc []))) k = Some (entry_of_spy g)"
      using assms(3) map_of_merge_spy_new[of "fold merge_spy pre (fold set_chart sc [])" g]
      by (simp add: entry_of_spy_def)
    then have "map_of (fold merge_spy ss (fold set_chart sc [])) k = Some (entry_of_spy g)"
      using assms(2) np by (simp add: fold_merge_spy_other)
    then show "e' = entry_of_spy g" using e'(1) by simp
  qed
  then show ?thesis using e' fold_add_app_keeps[OF e'(1), of aa]
    by (auto simp: allGamesMap_def merge_lower_def)
qed

lemma app_content:
  assumes "k \<notin> cg_appId ` set sc" and "k \<notin> sg_appId ` set ss"
    and "aa = pre @ a # post" and "app_appid a = k" and "k \<notin> app_appid ` set pre"
  shows "map_of (allGamesMap sc ss aa) k = Some (entry_of_app a)"
proof -
  have "map_of (fold merge_spy ss (fold set_chart sc [])) k = None"
    using assms(1,2) by (simp add: fold_set_chart_other fold_merge_spy_other)
  from fold_add_app_first[OF assms(3,4,5) this] show ?thesis
    by (simp add: allGamesMap_def merge_lower_def)
qed

text \<open>
  A stored record against a SteamSpy list that has its identifier exactly once.
\<close>

lemma merge_lower_single:
  assumes "map_of m k = Some e" and "ss = pre @ g # post" and "sg_appId g = k"
    and "k \<notin> sg_appId ` set pre" and "k \<notin> sg_appId ` set post"
  shows "map_of (merge_lower m ss aa) k =
           Some (e\<lparr>name := (if js_truthy_str (name e) then name e else Some (sg_name g)),
                   owners := Some (sg_owners g)\<rparr>)"
proof -
  have "map_of (fold merge_spy pre m) k = Some e"
    using assms(1,4) by (simp add: fold_merge_spy_other)
  then have "map_of (merge_spy g (fold merge_spy pre m)) k =
           Some (e\<lparr>name := (if js_truthy_str (name e) then name e else Some (sg_name g)),
                   owners := Some (sg_owners g)\<rparr>)"
    using assms(3) map_of_merge_spy_seen[of "fold merge_spy pre m" g e] by simp
  then have "map_of (fold merge_spy ss m) k =
           Some (e\<lparr>name := (if js_truthy_str (name e) then name e else Some (sg_name g)),
                   owners := Some (sg_owners g)\<rparr>)"
    using assms(2,5) by (simp add: fold_merge_spy_other)
  then show ?thesis by (simp add: merge_lower_def fold_add_app_keeps)
qed

text \<open>
  C3 (as amended). The sources are merged in ascending priority order. An identifier
  that no higher-priority source has is stored with the record and the priority of the
  first candidate that has it; an identifier is absent only if no source has it. A
  SteamSpy candidate whose identifier is stored changes two fields of the stored record
  and no other: it fills the name if the stored name is empty, and it sets the owners,
  which no Steam Charts record carries. The static count, the peak, the rank, the source
  and the priority of a stored record never change, and a populated name is never
  replaced. An all-apps candidate whose identifier is stored changes nothing, so an
  empty name is not filled from it. For the three sources of the scenario the merge
  yields three candidates, and \<open>10\<close> keeps its \<open>500\<close> players from priority 1 and gains
  the name Foo from priority 2.
\<close>

theorem merge_backfills_name_only:
  "(map_of m k = Some e \<longrightarrow>
      (\<exists>e'. map_of (merge_lower m ss aa) k = Some e'
         \<and> e' = e\<lparr>name := name e', owners := owners e'\<rparr>
         \<and> (js_truthy_str (name e) \<longrightarrow> name e' = name e)
         \<and> (name e' = name e \<or> (\<exists>h\<in>set ss. sg_appId h = k \<and> name e' = Some (sg_name h)))
         \<and> (owners e' = owners e \<or> (\<exists>h\<in>set ss. sg_appId h = k \<and> owners e' = Some (sg_owners h)))))
   \<and> (map_of m k = Some e \<and> k \<notin> sg_appId ` set ss \<longrightarrow>
        map_of (merge_lower m ss aa) k = Some e)
   \<and> (map_of m k = Some e \<and> ss = pre @ g # post \<and> sg_appId g = k
        \<and> k \<notin> sg_appId ` set pre \<and> k \<notin> sg_appId ` set post \<longrightarrow>
        map_of (merge_lower m ss aa) k =
          Some (e\<lparr>name := (if js_truthy_str (name e) then name e else Some (sg_name g)),
                  owners := Some (sg_owners g)\<rparr>))
   \<and> (sc = cpre @ c # cpost \<and> cg_appId c = k \<and> k \<notin> cg_appId ` set cpost \<longrightarrow>
        map_of (fold set_chart sc []) k = Some (entry_of_chart c)
        \<and> (\<exists>e'. map_of (allGamesMap sc ss aa) k = Some e'
              \<and> lower_pass_effect ss k (entry_of_chart c) e' \<and> priority e' = 1
              \<and> (k \<notin> sg_appId ` set ss \<longrightarrow> e' = entry_of_chart c)))
   \<and> (k \<notin> cg_appId ` set sc \<and> ss = pre @ g # post \<and> sg_appId g = k
        \<and> k \<notin> sg_appId ` set pre \<longrightarrow>
        (\<exists>e'. map_of (allGamesMap sc ss aa) k = Some e'
           \<and> lower_pass_effect post k (entry_of_spy g) e' \<and> priority e' = 2
           \<and> (k \<notin> sg_appId ` set post \<longrightarrow> e' = entry_of_spy g)))
   \<and> (k \<notin> cg_appId ` set sc \<and> k \<notin> sg_appId ` set ss \<and> aa = apre @ a # apost
        \<and> app_appid a = k \<and> k \<notin> app_appid ` set apre \<longrightarrow>
        map_of (allGamesMap sc ss aa) k = Some (entry_of_app a))
   \<and> (map_of (allGamesMap sc ss aa) k = None) =
       (k \<notin> cg_appId ` set sc \<and> k \<notin> sg_appId ` set ss \<and> k \<notin> app_appid ` set aa)
   \<and> allUniqueGames scenario_charts scenario_spy scenario_apps =
       [\<lparr>appId = 10, name = Some ''Foo'', rank = Some 1, currentPlayers = Some 500,
         peak24h = Some 0, owners = Some (Num 0), averagePlaytime = None, priority = 1,
         source = ''steam-charts''\<rparr>,
        \<lparr>appId = 20, name = Some ''Bar'', rank = None, currentPlayers = Some 5,
         peak24h = None, owners = Some (Num 0), averagePlaytime = Some (Num 0), priority = 2,
         source = ''steamspy''\<rparr>,
        \<lparr>appId = 30, name = Some ''Baz'', rank = None, currentPlayers = Some 0,
         peak24h = None, owners = None, averagePlaytime = None, priority = 3,
         source = ''steam-all-apps''\<rparr>]"
proof (intro conjI impI)
  assume "map_of m k = Some e"
  from merge_lower_effect[OF this, of ss aa] obtain e' where
    e': "map_of (merge_lower m ss aa) k = Some e'" "lower_pass_effect ss k e e'"
    by blast
  have "e' = e\<lparr>name := name e', owners := owners e'\<rparr>"
    using e'(2) by (simp add: lower_pass_effect_def)
  moreover have "js_truthy_str (name e) \<longrightarrow> name e' = name e"
    using e'(2) by (simp add: lower_pass_effect_def)
  moreover have "name e' = name e \<or> (\<exists>h\<in>set ss. sg_appId h = k \<and> name e' = Some (sg_name h))"
    using e'(2) by (auto simp: lower_pass_effect_def split: if_splits)
  moreover have "owners e' = owners e \<or> (\<exists>h\<in>set ss. sg_appId h = k \<and> owners e' = Some (sg_owners h))"
    using e'(2) by (auto simp: lower_pass_effect_def)
  ultimately show "\<exists>e'. map_of (merge_lower m ss aa) k = Some e'
         \<and> e' = e\<lparr>name := name e', owners := owners e'\<rparr>
         \<and> (js_truthy_str (name e) \<longrightarrow> name e' = name e)
         \<and> (name e' = name e \<or> (\<exists>h\<in>set ss. sg_appId h = k \<and> name e' = Some (sg_name h)))
         \<and> (owners e' = owners e \<or> (\<exists>h\<in>set ss. sg_appId h = k \<and> owners e' = Some (sg_owners h)))"
    using e'(1) by blast
next
  assume "map_of m k = Some e \<and> k \<notin> sg_appId ` set ss"
  then show "map_of (merge_lower m ss aa) k = Some e"
    using merge_lower_untouched by blast
next
  assume "map_of m k = Some e \<and> ss = pre @ g # post \<and> sg_appId g = k
        \<and> k \<notin> sg_appId ` set pre \<and> k \<notin> sg_appId ` set post"
  then show "map_of (merge_lower m ss aa) k =
          Some (e\<lparr>name := (if js_truthy_str (name e) then name e else Some (sg_name g)),
                  owners := Some (sg_owners g)\<rparr>)"
    using merge_lower_single by blast
next
  assume "sc = cpre @ c # cpost \<and> cg_appId c = k \<and> k \<notin> cg_appId ` set cpost"
  then show "map_of (fold set_chart sc []) k = Some (entry_of_chart c)"
    using fold_set_chart_last by blast
next
  assume a: "sc = cpre @ c # cpost \<and> cg_appId c = k \<and> k \<notin> cg_appId ` set cpost"
  then have "\<exists>e'. map_of (allGamesMap sc ss aa) k = Some e'
           \<and> lower_pass_effect ss k (entry_of_chart c) e'
           \<and> (k \<notin> sg_appId ` set ss \<longrightarrow> e' = entry_of_chart c)"
    using chart_content[of sc cpre c cpost k ss aa] by blast
  then obtain e' where e': "map_of (allGamesMap sc ss aa) k = Some e'"
      "lower_pass_effect ss k (entry_of_chart c) e'"
      "k \<notin> sg_appId ` set ss \<longrightarrow> e' = entry_of_chart c"
    by blast
  have "e' = (entry_of_chart c)\<lparr>name := name e', owners := owners e'\<rparr>"
    using e'(2) by (simp add: lower_pass_effect_def)
  then have "priority e' = priority (entry_of_chart c)"
    by (metis game.select_convs(8) game.surjective game.update_convs(2) game.update_convs(6))
  then have "priority e' = 1" by (simp add: entry_of_chart_def)
  then show "\<exists>e'. map_of (allGamesMap sc ss aa) k = Some e'
              \<and> lower_pass_effect ss k (entry_of_chart c) e' \<and> priority e' = 1
              \<and> (k \<notin> sg_appId ` set ss \<longrightarrow> e' = entry_of_chart c)"
    using e' by blast
next
  assume a: "k \<notin> cg_appId ` set sc \<and> ss = pre @ g # post \<and> sg_appId g = k
        \<and> k \<notin> sg_appId ` set pre"
  then have "\<exists>e'. map_of (allGamesMap sc ss aa) k = Some e'
           \<and> lower_pass_effect post k (entry_of_spy g) e'
           \<and> (k \<notin> sg_appId ` set post \<longrightarrow> e' = entry_of_spy g)"
    using spy_content[of k sc ss pre g post aa] by blast
  then obtain e' where e': "map_of (allGamesMap sc ss aa) k = Some e'"
      "lower_pass_effect post k (entry_of_spy g) e'"
      "k \<notin> sg_appId ` set post \<longrightarrow> e' = entry_of_spy g"
    by blast
  have "e' = (entry_of_spy g)\<lparr>name := name e', owners := owners e'\<rparr>"
    using e'(2) by (simp add: lower_pass_effect_def)
  then have "priority e' = priority (entry_of_spy g)"
    by (metis game.select_convs(8) game.surjective game.update_convs(2) game.update_convs(6))
  then have "priority e' = 2" by (simp add: entry_of_spy_def)
  then show "\<exists>e'. map_of (allGamesMap sc ss aa) k = Some e'
           \<and> lower_pass_effect post k (entry_of_spy g) e' \<and> priority e' = 2
           \<and> (k \<notin> sg_appId ` set post \<longrightarrow> e' = entry_of_spy g)"
    using e' by blast
next
  assume "k \<notin> cg_appId ` set sc \<and> k \<notin> sg_appId ` set ss \<and> aa = apre @ a # apost
        \<and> app_appid a = k \<and> k \<notin> app_appid ` set apre"
  then show "map_of (allGamesMap sc ss aa) k = Some (entry_of_app a)"
    using app_content by blast
next
  show "(map_of (allGamesMap sc ss aa) k = None) =
       (k \<notin> cg_appId ` set sc \<and> k \<notin> sg_appId ` set ss \<and> k \<notin> app_appid ` set aa)"
    by (rule stored_priority(1))
next
  show "allUniqueGames scenario_charts scenario_spy scenario_apps =
       [\<lparr>appId = 10, name = Some ''Foo'', rank = Some 1, currentPlayers = Some 500,
         peak24h = Some 0, owners = Some (Num 0), averagePlaytime = None, priority = 1,
         source = ''steam-charts''\<rparr>,
        \<lparr>appId = 20, name = Some ''Bar'', rank = None, currentPlayers = Some 5,
         peak24h = None, owners = Some (Num 0), averagePlaytime = Some (Num 0), priority = 2,
         source = ''steamspy''\<rparr>,
        \<lparr>appId = 30, name = Some ''Baz'', rank = None, currentPlayers = Some 0,
         peak24h = None, owners = None, averagePlaytime = None, priority = 3,
         source = ''steam-all-apps''\<rparr>]"
    by (rule scenario_merge)
qed

text \<open>
  The theorem at a map holding a named record for \<open>10\<close>, against the SteamSpy list of
  the scenario and against the all-apps entry that names \<open>10\<close>, and at the identifiers
  \<open>10\<close>, \<open>20\<close> and \<open>30\<close> of the scenario.
\<close>

theorem merge_backfills_name_only_witness:
  "map_of keep_map 10 = Some keep_entry
   \<and> scenario_spy = [] @ (scenario_spy ! 0) # [scenario_spy ! 1]
   \<and> sg_appId (scenario_spy ! 0) = 10 \<and> 10 \<notin> sg_appId ` set [scenario_spy ! 1]
   \<and> map_of (merge_lower keep_map scenario_spy scenario_apps) 10 =
       Some (keep_entry\<lparr>owners := Some (Num 0)\<rparr>)
   \<and> 10 \<notin> sg_appId ` set [scenario_spy ! 1]
   \<and> map_of (merge_lower keep_map [scenario_spy ! 1] named_app) 10 = Some keep_entry
   \<and> scenario_charts = [] @ (scenario_charts ! 0) # [] \<and> cg_appId (scenario_charts ! 0) = 10
   \<and> map_of (fold set_chart scenario_charts []) 10 = Some (entry_of_chart (scenario_charts ! 0))
   \<and> 20 \<notin> cg_appId ` set scenario_charts
   \<and> scenario_spy = [scenario_spy ! 0] @ (scenario_spy ! 1) # []
   \<and> sg_appId (scenario_spy ! 1) = 20 \<and> 20 \<notin> sg_appId ` set [scenario_spy ! 0]
   \<and> map_of (allGamesMap scenario_charts scenario_spy scenario_apps) 20 =
       Some (entry_of_spy (scenario_spy ! 1))
   \<and> 30 \<notin> cg_appId ` set scenario_charts \<and> 30 \<notin> sg_appId ` set scenario_spy
   \<and> scenario_apps = [] @ (scenario_apps ! 0) # [] \<and> app_appid (scenario_apps ! 0) = 30
   \<and> map_of (allGamesMap scenario_charts scenario_spy scenario_apps) 30 =
       Some (entry_of_app (scenario_apps ! 0))"
  using merge_backfills_name_only[where m = keep_map and k = 10 and e = keep_entry
          and ss = scenario_spy and aa = scenario_apps and sc = scenario_charts
          and pre = "[]" and g = "scenario_spy ! 0" and post = "[scenario_spy ! 1]"
          and cpre = "[]" and c = "scenario_charts ! 0" and cpost = "[]"
          and apre = "[]" and a = "scenario_apps ! 0" and apost = "[]"]
        merge_backfills_name_only[where m = keep_map and k = 10 and e = keep_entry
          and ss = "[scenario_spy ! 1]" and aa = named_app and sc = scenario_charts
          and pre = "[]" and g = "scenario_spy ! 0" and post = "[scenario_spy ! 1]"
          and cpre = "[]" and c = "scenario_charts ! 0" and cpost = "[]"
          and apre = "[]" and a = "scenario_apps ! 0" and apost = "[]"]
        merge_backfills_name_only[where m = keep_map and k = 20 and e = keep_entry
          and ss = scenario_spy and aa = scenario_apps and sc = scenario_charts
          and pre = "[scenario_spy ! 0]" and g = "scenario_spy ! 1" and post = "[]"
          and cpre = "[]" and c = "scenario_charts ! 0" and cpost = "[]"
          and apre = "[]" and a = "scenario_apps ! 0" and apost = "[]"]
        merge_backfills_name_only[where m = keep_map and k = 30 and e = keep_entry
          and ss = scenario_spy and aa = scenario_apps and sc = scenario_charts
          and pre = "[]" and g = "scenario_spy ! 0" and post = "[scenario_spy ! 1]"
          and cpre = "[]" and c = "scenario_charts ! 0" and cpost = "[]"
          and apre = "[]" and a = "scenario_apps ! 0" and apost = "[]"]
  by (simp add: keep_map_def keep_entry_def candidate_def scenario_spy_def scenario_apps_def
      scenario_charts_def named_app_def merge_lower_def merge_spy_def add_app_def
      js_truthy_str_def allGamesMap_def set_chart_def entry_of_chart_def entry_of_spy_def
      entry_of_app_def)

text \<open>
  C3 as stated has a lower-priority candidate whose identifier is stored fill the empty
  fields of the stored record. The Steam Charts source of the scenario stores \<open>10\<close>
  without a name; the all-apps candidate \<open>10\<close> is named Baz; after the merge the name of
  \<open>10\<close> is still empty.
\<close>

theorem no_backfill_counterexample:
  "map cg_appId scenario_charts = [10]
   \<and> map app_appid named_app = [10] \<and> map app_name named_app = [''Baz'']
   \<and> map appId (allUniqueGames scenario_charts [] named_app) = [10]
   \<and> map name (allUniqueGames scenario_charts [] named_app) = [None]"
  by (simp add: named_app_def scenario_charts_def allUniqueGames_def allGamesMap_def
      merge_lower_def set_chart_def add_app_def)

subsection \<open>The order of the processed list\<close>

lemma map_set_new: "map_of m k = None \<Longrightarrow> map_set k v m = m @ [(k, v)]"
  by (induction m) (auto split: if_splits)

lemma fold_add_app_many:
  "fold add_app (many_apps n) [] = map (\<lambda>i. (int i, entry_of_app (app_numbered i))) [1..<Suc n]"
proof (induction n)
  case 0
  then show ?case by (simp add: many_apps_def)
next
  case (Suc n)
  let ?m = "map (\<lambda>i. (int i, entry_of_app (app_numbered i))) [1..<Suc n]"
  have none: "map_of ?m (int (Suc n)) = None"
    by (auto simp: map_of_eq_None_iff simp del: upt_Suc)
  have step: "add_app (app_numbered (Suc n)) ?m = ?m @ [(int (Suc n), entry_of_app (app_numbered (Suc n)))]"
    using none map_set_new[OF none]
    by (simp add: add_app_def app_numbered_def entry_of_app_def del: upt_Suc)
  have "many_apps (Suc n) = many_apps n @ [app_numbered (Suc n)]"
    by (simp add: many_apps_def)
  then have "fold add_app (many_apps (Suc n)) [] = add_app (app_numbered (Suc n)) ?m"
    using Suc by (simp del: upt_Suc)
  also have "\<dots> = map (\<lambda>i. (int i, entry_of_app (app_numbered i))) [1..<Suc (Suc n)]"
    unfolding step by simp
  finally show ?case .
qed

lemma merged_many_apps:
  "allUniqueGames [] [] (many_apps n) = map (\<lambda>i. entry_of_app (app_numbered i)) [1..<Suc n]"
  by (simp add: allUniqueGames_def allGamesMap_def merge_lower_def fold_add_app_many o_def
      del: upt_Suc)

lemma toProcess_many_apps:
  "gamesToProcess rev [] [] (many_apps (Suc TARGET_GAMES)) =
     rev (map (\<lambda>i. entry_of_app (app_numbered i)) [2..<Suc (Suc TARGET_GAMES)])"
proof -
  let ?f = "\<lambda>i. entry_of_app (app_numbered i)"
  let ?merged = "map ?f [1..<Suc (Suc TARGET_GAMES)]"
  have kept: "filter (\<lambda>g. priority g \<le> 2) ?merged = []"
    by (simp add: filter_empty_conv entry_of_app_def del: upt_Suc)
  have pool: "filter (\<lambda>g. priority g = 3) ?merged = ?merged"
    by (simp add: filter_id_conv entry_of_app_def del: upt_Suc)
  have "take TARGET_GAMES (rev ?merged) = rev (drop 1 ?merged)"
    by (simp add: take_rev del: upt_Suc)
  also have "drop 1 ?merged = map ?f [2..<Suc (Suc TARGET_GAMES)]"
    by (simp only: drop_map drop_upt one_add_one)
  finally have tk: "take TARGET_GAMES (rev ?merged) = rev (map ?f [2..<Suc (Suc TARGET_GAMES)])" .
  have sg: "sample_games TARGET_GAMES rev ?merged = take TARGET_GAMES (rev ?merged)"
    unfolding sample_games_def Let_def kept pool
    by (simp add: randomSample_def js_slice0_def del: upt_Suc)
  show ?thesis
    by (simp only: gamesToProcess_def merged_many_apps sg tk)
qed

lemma makeRequest_from_ok_result:
  "i < retries \<Longrightarrow> net i = OkJson b \<Longrightarrow> fst (makeRequest_from net retries i st) = Some b"
  by (subst makeRequest_from.simps) (simp add: Let_def)

lemma fetch_one_busy: "fst (fetch_one busy a st) = \<lparr>fo_appId = a, players = 1\<rparr>"
  using makeRequest_from_ok_result[of 0 MAX_RETRIES "busy a" _ st]
  by (simp add: fetch_one_def fetchWithRetry_def makeRequest_def players_of_def busy_def
      MAX_RETRIES_def case_prod_beta)

lemma fetch_each_busy:
  "fst (fetch_each busy ids st) = map (\<lambda>a. \<lparr>fo_appId = a, players = 1\<rparr>) ids"
  by (induction ids arbitrary: st) (simp_all add: case_prod_beta fetch_one_busy)

lemma gameMap_finds: "g \<in> set games \<Longrightarrow> \<exists>h. gameMap games (appId g) = Some h"
proof -
  assume "g \<in> set games"
  then have "appId g \<in> fst ` set (rev (map (\<lambda>g. (appId g, g)) games))" by force
  then show ?thesis unfolding gameMap_def
    by (metis map_of_eq_None_iff not_None_eq)
qed

lemma gameMap_member: "gameMap games k = Some h \<Longrightarrow> h \<in> set games"
  unfolding gameMap_def by (auto dest: map_of_SomeD)

lemma aggregate_all_busy:
  "map fg_appId (aggregate games (map (\<lambda>a. \<lparr>fo_appId = a, players = 1\<rparr>) (map appId games))) =
     map appId games"
proof -
  let ?rs = "map (\<lambda>a. \<lparr>fo_appId = a, players = 1\<rparr>) (map appId games)"
  have "\<forall>r\<in>set ?rs. (case gameMap games (fo_appId r) of None \<Rightarrow> False
                          | Some g \<Rightarrow> 0 < finalPlayerCount r g)"
  proof
    fix r assume "r \<in> set ?rs"
    then obtain g where g: "g \<in> set games" "r = \<lparr>fo_appId = appId g, players = 1\<rparr>" by auto
    from gameMap_finds[OF g(1)] obtain h where "gameMap games (appId g) = Some h" by blast
    then show "case gameMap games (fo_appId r) of None \<Rightarrow> False
                 | Some g \<Rightarrow> 0 < finalPlayerCount r g"
      using g(2) by (simp add: finalPlayerCount_def)
  qed
  then have "filter (\<lambda>r. case gameMap games (fo_appId r) of None \<Rightarrow> False
                             | Some g \<Rightarrow> 0 < finalPlayerCount r g) ?rs = ?rs"
    by (simp only: filter_id_conv)
  then show ?thesis using aggregate_appIds[of games ?rs] by (simp add: o_def)
qed

lemma aggregate_busy_counts:
  assumes "\<forall>g\<in>set games. currentPlayers g = Some 0"
    and "f \<in> set (aggregate games (map (\<lambda>a. \<lparr>fo_appId = a, players = 1\<rparr>) ids))"
  shows "fg_currentPlayers f = 1"
proof -
  from aggregate_members[OF assms(2)] obtain r where
    r: "r \<in> set (map (\<lambda>a. \<lparr>fo_appId = a, players = 1\<rparr>) ids)" "join_result games r = Some f"
    by blast
  from join_result_fields[OF r(2)] obtain g where
    g: "gameMap games (fo_appId r) = Some g" "fg_currentPlayers f = finalPlayerCount r g"
    by blast
  have "players r = 1" using r(1) by auto
  moreover have "static_players g = 0"
    using assms(1) gameMap_member[OF g(1)] by (simp add: static_players_def)
  ultimately show ?thesis using g(2) by (simp add: finalPlayerCount_def)
qed

lemma sort_by_players_all_tied:
  assumes "\<forall>g\<in>set gs. fg_currentPlayers g = c"
  shows "sort_by_players gs = gs"
proof -
  have "map (\<lambda>g. - fg_currentPlayers g) gs = replicate (length gs) (- c)"
    using assms by (simp add: map_replicate_const[symmetric])
  then show ?thesis
    unfolding sort_by_players_def by (intro sort_key_id_if_sorted) simp
qed

lemma numbered_appIds:
  "map appId (rev (map (\<lambda>i. entry_of_app (app_numbered i)) xs)) = rev (map int xs)"
  by (simp add: rev_map entry_of_app_def app_numbered_def o_def)

lemma numbered_static:
  "\<forall>g\<in>set (rev (map (\<lambda>i. entry_of_app (app_numbered i)) xs)). currentPlayers g = Some 0"
  by (simp add: entry_of_app_def)

lemma length_sampled_ids: "length (rev (map int [2..<Suc (Suc n)])) = n"
  by (simp only: length_rev length_map length_upt diff_Suc_Suc numeral_2_eq_2 diff_zero)

lemma busy_gamesWithPlayers:
  fixes st :: fetcher
  defines "gwp \<equiv> gamesWithPlayers rev busy (many_apps (Suc TARGET_GAMES)) [] [] st"
  shows "map fg_appId gwp = rev (map int [2..<Suc (Suc TARGET_GAMES)])"
    and "map fg_currentPlayers gwp = replicate TARGET_GAMES 1"
proof -
  let ?f = "\<lambda>i. entry_of_app (app_numbered i)"
  let ?gtp = "rev (map ?f [2..<Suc (Suc TARGET_GAMES)])"
  have gwp: "gwp = aggregate ?gtp (map (\<lambda>a. \<lparr>fo_appId = a, players = 1\<rparr>) (map appId ?gtp))"
    by (simp only: gwp_def gamesWithPlayers_def Let_def toProcess_many_apps
        fetchPlayerCountsParallel_eq fetch_each_busy)
  have "map fg_appId gwp = map appId ?gtp"
    unfolding gwp by (rule aggregate_all_busy)
  then show a: "map fg_appId gwp = rev (map int [2..<Suc (Suc TARGET_GAMES)])"
    by (simp only: numbered_appIds)
  have "\<forall>g\<in>set ?gtp. currentPlayers g = Some 0"
    by (rule numbered_static)
  then have "\<forall>f\<in>set gwp. fg_currentPlayers f = 1"
    unfolding gwp using aggregate_busy_counts by blast
  then have "map fg_currentPlayers gwp = replicate (length gwp) 1"
    by (simp add: map_replicate_const[symmetric])
  moreover have "length gwp = TARGET_GAMES"
    using arg_cong[OF a, of length] by (simp only: length_map length_sampled_ids)
  ultimately show "map fg_currentPlayers gwp = replicate TARGET_GAMES 1" by simp
qed

lemma busy_ranking:
  fixes st :: fetcher
  defines "res \<equiv> fst (fetchAllSteamData rev busy (many_apps (Suc TARGET_GAMES)) [] [] st)"
  shows "\<not> isl res"
    and "map fg_appId (ranking (projr res)) = rev (map int [2..<Suc (Suc TARGET_GAMES)])"
    and "map fg_currentPlayers (ranking (projr res)) = replicate TARGET_GAMES 1"
    and "map fg_rank (ranking (projr res)) = map Some [1..<Suc TARGET_GAMES]"
proof -
  let ?gwp = "gamesWithPlayers rev busy (many_apps (Suc TARGET_GAMES)) [] [] st"
  have len: "length ?gwp = TARGET_GAMES"
    using arg_cong[OF busy_gamesWithPlayers(1)[of st], of length]
    by (simp only: length_map length_sampled_ids)
  have tied: "\<forall>g\<in>set ?gwp. fg_currentPlayers g = 1"
  proof
    fix g assume "g \<in> set ?gwp"
    then have "fg_currentPlayers g \<in> set (map fg_currentPlayers ?gwp)" by simp
    then show "fg_currentPlayers g = 1" unfolding busy_gamesWithPlayers(2) by simp
  qed
  have enough: "\<not> length ?gwp < MIN_GAMES_REQUIRED"
    unfolding len by (simp add: MIN_GAMES_REQUIRED_def TARGET_GAMES_def)
  have res: "ranking (projr res) = assign_ranks ?gwp" and ok: "\<not> isl res"
    unfolding res_def fetchAllSteamData_result using enough
    by (simp_all add: sort_by_players_all_tied[OF tied])
  show "\<not> isl res" by (rule ok)
  show "map fg_appId (ranking (projr res)) = rev (map int [2..<Suc (Suc TARGET_GAMES)])"
    unfolding res assign_ranks_appIds by (rule busy_gamesWithPlayers(1))
  show "map fg_currentPlayers (ranking (projr res)) = replicate TARGET_GAMES 1"
    unfolding res assign_ranks_players by (rule busy_gamesWithPlayers(2))
  show "map fg_rank (ranking (projr res)) = map Some [1..<Suc TARGET_GAMES]"
    unfolding res using assign_ranks_ranks[of ?gwp] by (simp only: len)
qed

text \<open>The merged list holds every identifier once, under its own key.\<close>

lemma map_set_keys:
  "map fst (map_set k v m) = (if k \<in> fst ` set m then map fst m else map fst m @ [k])"
  by (induction m) (force split: if_splits)+

lemma map_set_entries: "set (map_set k v m) \<subseteq> insert (k, v) (set m)"
  by (induction m) (auto split: if_splits)

lemma map_set_keyed:
  assumes "distinct (map fst m) \<and> (\<forall>p\<in>set m. appId (snd p) = fst p)" and "appId v = k"
  shows "distinct (map fst (map_set k v m)) \<and> (\<forall>p\<in>set (map_set k v m). appId (snd p) = fst p)"
proof
  show "distinct (map fst (map_set k v m))"
    using assms(1) by (auto simp: map_set_keys)
  show "\<forall>p\<in>set (map_set k v m). appId (snd p) = fst p"
    using assms map_set_entries[of k v m] by auto
qed

lemma set_chart_keyed:
  "distinct (map fst m) \<and> (\<forall>p\<in>set m. appId (snd p) = fst p) \<Longrightarrow>
   distinct (map fst (set_chart g m)) \<and> (\<forall>p\<in>set (set_chart g m). appId (snd p) = fst p)"
  unfolding set_chart_def by (rule map_set_keyed) simp_all

lemma merge_spy_keyed:
  assumes "distinct (map fst m) \<and> (\<forall>p\<in>set m. appId (snd p) = fst p)"
  shows "distinct (map fst (merge_spy g m)) \<and> (\<forall>p\<in>set (merge_spy g m). appId (snd p) = fst p)"
proof (cases "map_of m (sg_appId g)")
  case None
  then show ?thesis unfolding merge_spy_def using assms
    by (simp only: option.case) (rule map_set_keyed, simp_all)
next
  case (Some e)
  then have "(sg_appId g, e) \<in> set m" by (rule map_of_SomeD)
  then have "appId e = sg_appId g" using assms by auto
  then show ?thesis unfolding merge_spy_def using assms Some
    by (simp only: option.case) (rule map_set_keyed, simp_all)
qed

lemma add_app_keyed:
  assumes "distinct (map fst m) \<and> (\<forall>p\<in>set m. appId (snd p) = fst p)"
  shows "distinct (map fst (add_app a m)) \<and> (\<forall>p\<in>set (add_app a m). appId (snd p) = fst p)"
proof (cases "map_of m (app_appid a)")
  case None
  then show ?thesis unfolding add_app_def using assms
    by (simp only: option.case) (rule map_set_keyed, simp_all)
next
  case (Some e)
  then show ?thesis unfolding add_app_def using assms by simp
qed

lemma fold_keyed:
  assumes step: "\<And>x m. distinct (map fst m) \<and> (\<forall>p\<in>set m. appId (snd p) = fst p) \<Longrightarrow>
                   distinct (map fst (f x m)) \<and> (\<forall>p\<in>set (f x m). appId (snd p) = fst p)"
    and "distinct (map fst m) \<and> (\<forall>p\<in>set m. appId (snd p) = fst p)"
  shows "distinct (map fst (fold f xs m)) \<and> (\<forall>p\<in>set (fold f xs m). appId (snd p) = fst p)"
  using assms(2)
proof (induction xs arbitrary: m)
  case Nil
  then show ?case by simp
next
  case (Cons x xs)
  from Cons.IH[OF step[OF Cons.prems]] show ?case by simp
qed

lemma allGamesMap_keyed:
  "distinct (map fst (allGamesMap sc ss aa)) \<and>
   (\<forall>p\<in>set (allGamesMap sc ss aa). appId (snd p) = fst p)"
  unfolding allGamesMap_def merge_lower_def
  by (intro fold_keyed add_app_keyed merge_spy_keyed set_chart_keyed) simp_all

lemma allUniqueGames_distinct: "distinct (map appId (allUniqueGames sc ss aa))"
proof -
  have "map appId (allUniqueGames sc ss aa) = map fst (allGamesMap sc ss aa)"
    using allGamesMap_keyed[of sc ss aa] by (simp add: allUniqueGames_def)
  then show ?thesis using allGamesMap_keyed[of sc ss aa] by simp
qed

text \<open>
  The surviving records follow the processed list: their identifiers are those of the
  processed candidates, in the same order, with the dropped ones left out.
\<close>

lemma gamesWithPlayers_order:
  "subseq (map fg_appId (gamesWithPlayers shuffle net apps charts spy st))
          (map appId (gamesToProcess shuffle charts spy apps))"
proof -
  let ?gtp = "gamesToProcess shuffle charts spy apps"
  let ?rs = "fst (fetch_each net (map appId ?gtp) st)"
  have "subseq (map fo_appId (filter (\<lambda>r. case gameMap ?gtp (fo_appId r) of None \<Rightarrow> False
                                | Some g \<Rightarrow> 0 < finalPlayerCount r g) ?rs)) (map fo_appId ?rs)"
    by (intro subseq_map subseq_filter_left)
  then show ?thesis
    by (simp add: gamesWithPlayers_def fetchPlayerCountsParallel_eq aggregate_appIds
        fetch_each_appIds Let_def)
qed

lemma tied_order:
  "subseq (map fg_appId (filter (\<lambda>g. fg_currentPlayers g = k) (assign_ranks (sort_by_players gs))))
          (map fg_appId gs)"
proof -
  have "map fg_appId (filter (\<lambda>g. fg_currentPlayers g = k) xs) =
        map fg_appId (filter (\<lambda>g. fg_currentPlayers g = k) (map unranked xs))" for xs
    by (induction xs) (simp_all add: unranked_def)
  from this[of "assign_ranks (sort_by_players gs)"] this[of gs]
  have "map fg_appId (filter (\<lambda>g. fg_currentPlayers g = k) (assign_ranks (sort_by_players gs))) =
        map fg_appId (filter (\<lambda>g. fg_currentPlayers g = k) gs)"
    by (simp only: ranked_stable)
  then show ?thesis by (simp add: subseq_map)
qed

lemma gamesToProcess_eq:
  "gamesToProcess shuffle charts spy apps =
     (if length (allUniqueGames charts spy apps) \<le> TARGET_GAMES
      then allUniqueGames charts spy apps
      else filter (\<lambda>g. priority g \<le> 2) (allUniqueGames charts spy apps)
           @ randomSample shuffle (filter (\<lambda>g. priority g = 3) (allUniqueGames charts spy apps))
               (int TARGET_GAMES
                - int (length (filter (\<lambda>g. priority g \<le> 2) (allUniqueGames charts spy apps)))))"
  by (simp add: gamesToProcess_def sample_games_def Let_def)

lemma last_two_merged:
  "1 \<le> n \<Longrightarrow> drop (n - 1) (map int [1..<Suc (Suc n)]) = [int n, int (Suc n)]"
proof -
  assume n: "1 \<le> n"
  have "drop (n - 1) [1..<Suc (Suc n)] = [n..<Suc (Suc n)]"
    using n by (simp only: drop_upt) simp
  also have "\<dots> = [n, Suc n]" by (simp add: upt_rec)
  finally show ?thesis by (simp only: drop_map list.map)
qed

lemma first_two_sampled:
  "2 \<le> n \<Longrightarrow> take 2 (rev (map f [2..<Suc (Suc n)])) = [f (Suc n), f n]"
proof -
  assume n: "2 \<le> n"
  have "[2..<Suc (Suc n)] = [2..<n] @ [n, Suc n]"
    using n by (simp only: upt_Suc_append) simp
  then show ?thesis by (simp only: map_append rev_append list.map rev.simps) simp
qed

lemma first_two_ranks: "2 \<le> n \<Longrightarrow> take 2 (map f [1..<Suc n]) = [f 1, f 2]"
proof -
  assume n: "2 \<le> n"
  have "[1..<Suc n] = 1 # [Suc 1..<Suc n]"
    by (rule upt_conv_Cons) (use n in simp)
  also have "[Suc 1..<Suc n] = Suc 1 # [Suc (Suc 1)..<Suc n]"
    by (rule upt_conv_Cons) (use n in simp)
  finally have "[1..<Suc n] = 1 # 2 # [Suc (Suc 1)..<Suc n]"
    by (simp only: Suc_1)
  then show ?thesis by (simp del: upt_Suc)
qed

lemma object_values_indices:
  "object_values (filter (\<lambda>entry. is_array_index (fst entry)) obj) =
     map snd (sort_key fst (filter (\<lambda>entry. is_array_index (fst entry)) obj))"
  by (simp add: object_values_def)

lemma object_values_others:
  "object_values (filter (\<lambda>entry. \<not> is_array_index (fst entry)) obj) =
     map snd (filter (\<lambda>entry. \<not> is_array_index (fst entry)) obj)"
  by (simp add: object_values_def)

lemma object_values_parts:
  "object_values obj =
     object_values (filter (\<lambda>entry. is_array_index (fst entry)) obj)
     @ object_values (filter (\<lambda>entry. \<not> is_array_index (fst entry)) obj)"
  by (simp add: object_values_def)

text \<open>
  C8 (as amended). The ranking of a dataset that passes validation is the ranked, sorted
  list of the surviving records. Its ranks are exactly \<open>1, ..., N\<close>, the counts do not
  increase along it, and the sort is stable: records with equal counts keep the order
  of the list handed to the sort. In \<^verbatim>\<open>part_000\<close> the records with equal counts follow
  the processed list \<^verbatim>\<open>gamesToProcess\<close>. That list is the merged list, whose
  identifiers are distinct, in the order of insertion, when the merged list has at most
  \<open>TARGET_GAMES\<close> candidates; otherwise it is the candidates of priority 1 and 2 in the
  order of insertion, followed by the candidates of priority 3 that the sampler drew,
  in the order of its shuffle. In \<^verbatim>\<open>fetch-steamspy-data.js\<close> the list handed to the
  sort is \<^verbatim>\<open>Object.values(this.games)\<close>: the values under the keys that are array
  indices in ascending order of the keys, then the values under the other keys in the
  order of insertion.
\<close>

theorem ranking_dense_sorted_stable:
  "(case fst (fetchAllSteamData shuffle net apps charts spy st) of
      Inl err \<Rightarrow> True
    | Inr d \<Rightarrow> ranking d = assign_ranks (sort_by_players (gamesWithPlayers shuffle net apps charts spy st)))
   \<and> map fg_rank (assign_ranks (sort_by_players gs)) = map Some [1..<Suc (length gs)]
   \<and> sorted_wrt (\<lambda>a b. fg_currentPlayers b \<le> fg_currentPlayers a) (assign_ranks (sort_by_players gs))
   \<and> (\<forall>k. filter (\<lambda>g. fg_currentPlayers g = k) (map unranked (assign_ranks (sort_by_players gs))) =
            filter (\<lambda>g. fg_currentPlayers g = k) (map unranked gs))
   \<and> (\<forall>k. subseq (map fg_appId (filter (\<lambda>g. fg_currentPlayers g = k)
                      (assign_ranks (sort_by_players (gamesWithPlayers shuffle net apps charts spy st)))))
                 (map appId (gamesToProcess shuffle charts spy apps)))
   \<and> gamesToProcess shuffle charts spy apps =
       (if length (allUniqueGames charts spy apps) \<le> TARGET_GAMES
        then allUniqueGames charts spy apps
        else filter (\<lambda>g. priority g \<le> 2) (allUniqueGames charts spy apps)
             @ randomSample shuffle (filter (\<lambda>g. priority g = 3) (allUniqueGames charts spy apps))
                 (int TARGET_GAMES
                  - int (length (filter (\<lambda>g. priority g \<le> 2) (allUniqueGames charts spy apps)))))
   \<and> distinct (map appId (allUniqueGames charts spy apps))
   \<and> (case fetchAllGames_result sst of
         Inl err \<Rightarrow> True
       | Inr d \<Rightarrow> sd_ranking d = spy_assign_ranks (spy_sort (object_values (sf_games sst))))
   \<and> map sr_rank (spy_assign_ranks (spy_sort vs)) = map Some [1..<Suc (length vs)]
   \<and> sorted_wrt (\<lambda>a b. sr_currentPlayers b \<le> sr_currentPlayers a) (spy_assign_ranks (spy_sort vs))
   \<and> (\<forall>k. filter (\<lambda>g. sr_currentPlayers g = k) (map spy_unranked (spy_assign_ranks (spy_sort vs))) =
            filter (\<lambda>g. sr_currentPlayers g = k) (map spy_unranked vs))
   \<and> object_values (sf_games sst) =
       object_values (filter (\<lambda>entry. is_array_index (fst entry)) (sf_games sst))
       @ object_values (filter (\<lambda>entry. \<not> is_array_index (fst entry)) (sf_games sst))
   \<and> object_values (filter (\<lambda>entry. is_array_index (fst entry)) (sf_games sst)) =
       map snd (sort_key fst (filter (\<lambda>entry. is_array_index (fst entry)) (sf_games sst)))
   \<and> object_values (filter (\<lambda>entry. \<not> is_array_index (fst entry)) (sf_games sst)) =
       map snd (filter (\<lambda>entry. \<not> is_array_index (fst entry)) (sf_games sst))"
proof -
  have r1: "map fg_rank (assign_ranks (sort_by_players gs)) = map Some [1..<Suc (length gs)]"
    using assign_ranks_ranks[of "sort_by_players gs"] by (simp add: sort_by_players_def)
  have r2: "map sr_rank (spy_assign_ranks (spy_sort vs)) = map Some [1..<Suc (length vs)]"
    using spy_ranks[of "spy_sort vs"] by (simp add: spy_sort_def)
  have p1: "case fst (fetchAllSteamData shuffle net apps charts spy st) of
      Inl err \<Rightarrow> True
    | Inr d \<Rightarrow> ranking d = assign_ranks (sort_by_players (gamesWithPlayers shuffle net apps charts spy st))"
    by (simp add: fetchAllSteamData_result)
  have p2: "case fetchAllGames_result sst of
         Inl err \<Rightarrow> True
       | Inr d \<Rightarrow> sd_ranking d = spy_assign_ranks (spy_sort (object_values (sf_games sst)))"
    by (simp add: fetchAllGames_result_eq sortedGames_def)
  have o: "subseq (map fg_appId (filter (\<lambda>g. fg_currentPlayers g = k)
                      (assign_ranks (sort_by_players (gamesWithPlayers shuffle net apps charts spy st)))))
                 (map appId (gamesToProcess shuffle charts spy apps))" for k
    using tied_order[of k "gamesWithPlayers shuffle net apps charts spy st"]
      gamesWithPlayers_order[of shuffle net apps charts spy st]
    by (rule subseq_order.trans)
  show ?thesis
    using r1 r2 p1 p2 ranked_non_increasing[of gs] spy_non_increasing[of vs]
      ranked_stable[of _ gs] spy_stable[of _ vs] o
      gamesToProcess_eq[of shuffle charts spy apps] allUniqueGames_distinct[of charts spy apps]
      object_values_parts[of "sf_games sst"] object_values_indices[of "sf_games sst"]
      object_values_others[of "sf_games sst"]
    by (intro conjI allI) assumption+
qed

text \<open>
  C8 as stated has records with equal counts keep their insertion order. In the SteamSpy
  script, after a first page that stored the games \<open>5001, ..., 10000\<close> and a second
  page that stored \<open>1, ..., 5000\<close>, all with one player, the run passes the minimum of
  \<open>10000\<close> games; game \<open>5001\<close> was stored first and game \<open>1\<close> after it, yet game \<open>1\<close>
  gets rank \<open>1\<close> and game \<open>5001\<close> rank \<open>5001\<close>. In \<^verbatim>\<open>part_000\<close>, with no charts and
  no SteamSpy games and an all-apps list of the \<open>50001\<close> games \<open>1, ..., 50001\<close>, the
  merge inserts them in that order, game \<open>50000\<close> before game \<open>50001\<close>. The merged list
  is longer than \<open>TARGET_GAMES\<close>, so the sampler cuts its shuffle to \<open>50000\<close> games;
  when the shuffle reverses the pool and every lookup reports one player, all the
  \<open>50000\<close> records are tied, the run passes the minimum, and game \<open>50001\<close> gets rank
  \<open>1\<close> and game \<open>50000\<close> rank \<open>2\<close>.
\<close>

theorem insertion_order_counterexample:
  "\<not> isl (fetchAllGames_result (two_pages 5000))
   \<and> sf_games (two_pages 5000) ! 0 = spy_entry 5001
   \<and> sf_games (two_pages 5000) ! 5000 = spy_entry 1
   \<and> sr_currentPlayers (snd (spy_entry 5001)) = sr_currentPlayers (snd (spy_entry 1))
   \<and> sd_ranking (projr (fetchAllGames_result (two_pages 5000))) ! 0 =
       (snd (spy_entry 1))\<lparr>sr_rank := Some 1\<rparr>
   \<and> sd_ranking (projr (fetchAllGames_result (two_pages 5000))) ! 5000 =
       (snd (spy_entry 5001))\<lparr>sr_rank := Some 5001\<rparr>
   \<and> Suc TARGET_GAMES = 50001
   \<and> length (allUniqueGames [] [] (many_apps (Suc TARGET_GAMES))) = 50001
   \<and> drop 49999 (map appId (allUniqueGames [] [] (many_apps (Suc TARGET_GAMES)))) = [50000, 50001]
   \<and> \<not> isl (fst (fetchAllSteamData rev busy (many_apps (Suc TARGET_GAMES)) [] [] fresh_fetcher))
   \<and> map fg_currentPlayers
        (ranking (projr (fst (fetchAllSteamData rev busy (many_apps (Suc TARGET_GAMES)) [] [] fresh_fetcher)))) =
       replicate 50000 1
   \<and> take 2 (map fg_appId
        (ranking (projr (fst (fetchAllSteamData rev busy (many_apps (Suc TARGET_GAMES)) [] [] fresh_fetcher))))) =
       [50001, 50000]
   \<and> take 2 (map fg_rank
        (ranking (projr (fst (fetchAllSteamData rev busy (many_apps (Suc TARGET_GAMES)) [] [] fresh_fetcher))))) =
       [Some 1, Some 2]"
proof -
  have res: "fetchAllGames_result (two_pages 5000) =
      Inr \<lparr>sd_metadata = \<lparr>sm_totalGames = 2 * 5000,
                            sm_totalPlayers = sf_totalPlayers (two_pages 5000),
                            sm_totalScanned = sf_totalGames (two_pages 5000)\<rparr>,
            sd_ranking = sortedGames (two_pages 5000)\<rparr>"
    by (rule two_pages_result) (simp add: MIN_GAMES_REQUIRED_def)
  have a: "sf_games (two_pages 5000) ! 0 = spy_entry 5001"
    using two_pages_first[of 5000] by simp
  have b: "sf_games (two_pages 5000) ! 5000 = spy_entry 1"
    using two_pages_second[of 5000] by simp
  have c: "sortedGames (two_pages 5000) ! 0 = (snd (spy_entry 1))\<lparr>sr_rank := Some 1\<rparr>"
    using sortedGames_two_pages_nth[of 5000 0] by simp
  have d: "sortedGames (two_pages 5000) ! 5000 = (snd (spy_entry 5001))\<lparr>sr_rank := Some 5001\<rparr>"
    using sortedGames_two_pages_nth[of 5000 5000] by simp
  have e: "sr_currentPlayers (snd (spy_entry 5001)) = sr_currentPlayers (snd (spy_entry 1))"
    by (simp add: spy_entry_def)
  have spy_part: "\<not> isl (fetchAllGames_result (two_pages 5000))
   \<and> sf_games (two_pages 5000) ! 0 = spy_entry 5001
   \<and> sf_games (two_pages 5000) ! 5000 = spy_entry 1
   \<and> sr_currentPlayers (snd (spy_entry 5001)) = sr_currentPlayers (snd (spy_entry 1))
   \<and> sd_ranking (projr (fetchAllGames_result (two_pages 5000))) ! 0 =
       (snd (spy_entry 1))\<lparr>sr_rank := Some 1\<rparr>
   \<and> sd_ranking (projr (fetchAllGames_result (two_pages 5000))) ! 5000 =
       (snd (spy_entry 5001))\<lparr>sr_rank := Some 5001\<rparr>"
    unfolding res using a b c d e by simp
  let ?res = "fst (fetchAllSteamData rev busy (many_apps (Suc TARGET_GAMES)) [] [] fresh_fetcher)"
  have t: "Suc TARGET_GAMES = 50001" by (simp add: TARGET_GAMES_def)
  have ids: "map appId (allUniqueGames [] [] (many_apps n)) = map int [1..<Suc n]" for n
    by (simp add: merged_many_apps entry_of_app_def app_numbered_def o_def del: upt_Suc)
  have len: "length (allUniqueGames [] [] (many_apps (Suc TARGET_GAMES))) = 50001"
    using arg_cong[OF ids[of "Suc TARGET_GAMES"], of length]
    by (simp add: TARGET_GAMES_def del: upt_Suc)
  have "drop (TARGET_GAMES - 1) (map appId (allUniqueGames [] [] (many_apps (Suc TARGET_GAMES)))) =
        [int TARGET_GAMES, int (Suc TARGET_GAMES)]"
    unfolding ids by (rule last_two_merged) (simp add: TARGET_GAMES_def)
  then have dr: "drop 49999 (map appId (allUniqueGames [] [] (many_apps (Suc TARGET_GAMES)))) =
                 [50000, 50001]"
    by (simp add: TARGET_GAMES_def)
  have ok: "\<not> isl ?res" by (rule busy_ranking(1))
  have cnt: "map fg_currentPlayers (ranking (projr ?res)) = replicate 50000 1"
    using busy_ranking(3)[of fresh_fetcher] by (simp add: TARGET_GAMES_def)
  have "take 2 (map fg_appId (ranking (projr ?res))) = [int (Suc TARGET_GAMES), int TARGET_GAMES]"
    unfolding busy_ranking(2) by (rule first_two_sampled) (simp add: TARGET_GAMES_def)
  then have top: "take 2 (map fg_appId (ranking (projr ?res))) = [50001, 50000]"
    by (simp add: TARGET_GAMES_def)
  have "take 2 (map fg_rank (ranking (projr ?res))) = [Some 1, Some 2]"
    unfolding busy_ranking(4) by (rule first_two_ranks) (simp add: TARGET_GAMES_def)
  then have rk: "take 2 (map fg_rank (ranking (projr ?res))) = [Some 1, Some 2]" .
  show ?thesis
    using spy_part t len dr ok cnt top rk by (intro conjI) (simp_all only: simp_thms)
qed

end
